theory Spec2Isabelle
  imports Main "HOL-Library.Word" "HOL-Library.AList" "HOL-Library.List_Lexorder"
    "HOL-Library.Char_ord"
begin

unbundle bit_operations_syntax

section \<open>Strings and file paths\<close>

text \<open>
  Go strings are byte sequences; they are modelled as \<^typ>\<open>string\<close>.
  \<open>strings.Split\<close> keeps empty fields, so \<open>Split("", ",")\<close> is one empty string.
\<close>

fun strings_Split :: "char \<Rightarrow> string \<Rightarrow> string list" where
  "strings_Split c [] = [[]]"
| "strings_Split c (x # xs) =
     (if x = c then [] # strings_Split c xs
      else (case strings_Split c xs of
              [] \<Rightarrow> [[x]]
            | t # ts \<Rightarrow> (x # t) # ts))"

fun strings_Join :: "string list \<Rightarrow> string \<Rightarrow> string" where
  "strings_Join [] sep = []"
| "strings_Join [x] sep = x"
| "strings_Join (x # y # ys) sep = x @ sep @ strings_Join (y # ys) sep"

definition strings_HasPrefix :: "string \<Rightarrow> string \<Rightarrow> bool" where
  "strings_HasPrefix s p = (take (length p) s = p)"

fun strings_Contains :: "string \<Rightarrow> string \<Rightarrow> bool" where
  "strings_Contains [] sub = (sub = [])"
| "strings_Contains (c # cs) sub = (strings_HasPrefix (c # cs) sub \<or> strings_Contains cs sub)"

text \<open>
  \<open>strings.ToLower\<close> on the ASCII range (bytes outside it are left alone; Go additionally
  folds non-ASCII letters).
\<close>

definition lower_char :: "char \<Rightarrow> char" where
  "lower_char c =
     (let n = (of_char c :: nat) in if 65 \<le> n \<and> n \<le> 90 then char_of (n + 32) else c)"

definition strings_ToLower :: "string \<Rightarrow> string" where
  "strings_ToLower s = map lower_char s"

text \<open>
  White space as \<open>unicode.IsSpace\<close> has it, in UTF-8: tab, line feed, vertical tab, form
  feed, carriage return, space, U+0085, U+00A0, U+1680, U+2000 to U+200A, U+2028,
  U+2029, U+202F, U+205F and U+3000. A lead byte of UTF-8 is never a continuation
  byte, so a text holds one of these runes wherever it holds its bytes, read from the
  left (\<open>range\<close> over a string) or from the right (\<open>utf8.DecodeLastRuneInString\<close>).
\<close>

definition space_runes :: "string list" where
  "space_runes =
     map (\<lambda>c. [c]) [CHR 0x09, CHR 0x0A, CHR 0x0B, CHR 0x0C, CHR 0x0D, CHR 0x20]
     @ [[CHR 0xC2, CHR 0x85], [CHR 0xC2, CHR 0xA0], [CHR 0xE1, CHR 0x9A, CHR 0x80]]
     @ map (\<lambda>c. [CHR 0xE2, CHR 0x80, c])
         [CHR 0x80, CHR 0x81, CHR 0x82, CHR 0x83, CHR 0x84, CHR 0x85, CHR 0x86, CHR 0x87,
          CHR 0x88, CHR 0x89, CHR 0x8A, CHR 0xA8, CHR 0xA9, CHR 0xAF]
     @ [[CHR 0xE2, CHR 0x81, CHR 0x9F], [CHR 0xE3, CHR 0x80, CHR 0x80]]"

text \<open>
  \<open>strip_runes rs s\<close> drops from the front of \<open>s\<close> every leading occurrence of a
  sequence of \<open>rs\<close>. \<open>strings.TrimSpace\<close> strips the white space runes at the front and
  then those at the end.
\<close>

fun strip_runes :: "string list \<Rightarrow> string \<Rightarrow> string" where
  "strip_runes rs [] = []"
| "strip_runes rs (c # cs) =
     (case find (strings_HasPrefix (c # cs)) rs of
        None \<Rightarrow> c # cs
      | Some r \<Rightarrow> strip_runes rs (drop (length r - 1) cs))"

definition strings_TrimSpace :: "string \<Rightarrow> string" where
  "strings_TrimSpace s =
     rev (strip_runes (map rev space_runes) (rev (strip_runes space_runes s)))"

text \<open>\<open>strings.Fields\<close>: the maximal runs of bytes between white space runes.\<close>

fun fields_from :: "string \<Rightarrow> string \<Rightarrow> string list" where
  "fields_from cur [] = (if cur = [] then [] else [rev cur])"
| "fields_from cur (c # cs) =
     (case find (strings_HasPrefix (c # cs)) space_runes of
        None \<Rightarrow> fields_from (c # cur) cs
      | Some r \<Rightarrow>
          (if cur = [] then [] else [rev cur]) @ fields_from [] (drop (length r - 1) cs))"

definition strings_Fields :: "string \<Rightarrow> string list" where
  "strings_Fields s = fields_from [] s"

text \<open>
  A path string is read as its list of components. \<open>comps\<close> cuts at slashes and drops
  empty components; \<open>norm\<close> removes \<open>.\<close> and resolves \<open>..\<close> lexically, as
  \<open>filepath.Clean\<close> does (a rooted path cannot climb above the root, a relative one
  keeps its leading \<open>..\<close>).
\<close>

type_synonym path = "string list"

definition comps :: "string \<Rightarrow> path" where
  "comps s = filter (\<lambda>t. t \<noteq> []) (strings_Split CHR ''/'' s)"

definition norm_step :: "bool \<Rightarrow> path \<Rightarrow> string \<Rightarrow> path" where
  "norm_step rooted st c =
     (if c = ''.'' then st
      else if c = ''..'' then
        (case st of
           [] \<Rightarrow> (if rooted then [] else [''..''])
         | t # ts \<Rightarrow> (if t = ''..'' then c # st else ts))
      else c # st)"

definition norm :: "bool \<Rightarrow> path \<Rightarrow> path" where
  "norm rooted cs = rev (foldl (norm_step rooted) [] cs)"

definition is_rooted :: "string \<Rightarrow> bool" where
  "is_rooted s = (case s of [] \<Rightarrow> False | c # _ \<Rightarrow> c = CHR ''/'')"

definition filepath_Clean :: "string \<Rightarrow> string" where
  "filepath_Clean s =
     (if s = [] then ''.''
      else let cs = norm (is_rooted s) (comps s) in
        if is_rooted s then CHR ''/'' # strings_Join cs ''/''
        else if cs = [] then ''.'' else strings_Join cs ''/'')"

definition filepath_Join :: "string list \<Rightarrow> string" where
  "filepath_Join elem =
     (case dropWhile (\<lambda>e. e = []) elem of
        [] \<Rightarrow> []
      | es \<Rightarrow> filepath_Clean (strings_Join es ''/''))"

text \<open>\<open>filepath.Dir\<close>: everything up to the last slash, cleaned.\<close>

definition filepath_Dir :: "string \<Rightarrow> string" where
  "filepath_Dir p = filepath_Clean (rev (dropWhile (\<lambda>c. c \<noteq> CHR ''/'') (rev p)))"

section \<open>Errors\<close>

text \<open>
  A Go \<open>error\<close> is its message: \<open>errors.New\<close> and \<open>fmt.Errorf\<close> without \<open>%w\<close> give
  \<open>Err\<close>, \<open>fmt.Errorf("prefix: %w", err)\<close> gives \<open>Wrap\<close>, a failing system call
  gives \<open>OSErr\<close> with the path it was about, a failing JSON call \<open>JSONErr\<close>.
\<close>

datatype oserr = ENOENT | ENOTDIR | EISDIR | EEXIST | EINVAL | EBUSY

datatype error =
    Err string
  | Wrap string error
  | OSErr oserr string
  | JSONErr
  | InsecurePermissions string "32 word"

section \<open>The world: file system, clock, observable effects\<close>

text \<open>
  The file system maps a normalised absolute path to a directory or to a regular file
  with its content and permission bits. The root always exists. Every system call
  fails with \<open>ENOENT\<close> on the empty path. Symbolic links,
  ownership and the umask are not modelled (the agent runs as root). The trace holds
  the effects that leave the process other than through the file system: calls into a
  DNS provider plugin, the loading of a plugin, and the lines written to standard
  error (\<open>ui.Error\<close>, \<open>ui.Warning\<close>). Standard output is not modelled.
\<close>

datatype node = File string "32 word" | Dir

datatype event =
    DNSPresent string string string
  | DNSCleanUp string string string
  | PluginOpen string
  | UiError error
  | UiWarning error

record world =
  fs :: "(path \<times> node) list"
  cwd :: path
  clock :: nat
  trace :: "event list"

definition resolve :: "world \<Rightarrow> string \<Rightarrow> path" where
  "resolve w s = norm True ((if is_rooted s then [] else cwd w) @ comps s)"

definition lookup :: "world \<Rightarrow> path \<Rightarrow> node option" where
  "lookup w p = (if p = [] then Some Dir else map_of (fs w) p)"

definition emit :: "event \<Rightarrow> world \<Rightarrow> world" where
  "emit e w = w\<lparr>trace := trace w @ [e]\<rparr>"

definition time_Sleep :: "nat \<Rightarrow> world \<Rightarrow> world" where
  "time_Sleep secs w = w\<lparr>clock := clock w + secs\<rparr>"

definition os_Stat :: "string \<Rightarrow> world \<Rightarrow> error + node" where
  "os_Stat name w =
     (if name = [] then Inl (OSErr ENOENT name)
      else (case lookup w (resolve w name) of
              None \<Rightarrow> Inl (OSErr ENOENT name)
            | Some n \<Rightarrow> Inr n))"

definition os_ReadFile :: "string \<Rightarrow> world \<Rightarrow> error + string" where
  "os_ReadFile name w =
     (if name = [] then Inl (OSErr ENOENT name)
      else (case lookup w (resolve w name) of
              None \<Rightarrow> Inl (OSErr ENOENT name)
            | Some Dir \<Rightarrow> Inl (OSErr EISDIR name)
            | Some (File d m) \<Rightarrow> Inr d))"

text \<open>
  \<open>os.ReadDir\<close>: the entries of a directory as (name, is-directory) pairs, sorted by
  file name.
\<close>

definition dir_entries :: "world \<Rightarrow> path \<Rightarrow> (string \<times> bool) list" where
  "dir_entries w p =
     sort_key fst
       (map (\<lambda>(q, n). (last q, n = Dir))
          (filter (\<lambda>(q, n). q \<noteq> [] \<and> butlast q = p) (fs w)))"

definition os_ReadDir :: "string \<Rightarrow> world \<Rightarrow> error + (string \<times> bool) list" where
  "os_ReadDir name w =
     (if name = [] then Inl (OSErr ENOENT name)
      else (case lookup w (resolve w name) of
              None \<Rightarrow> Inl (OSErr ENOENT name)
            | Some (File d m) \<Rightarrow> Inl (OSErr ENOTDIR name)
            | Some Dir \<Rightarrow> Inr (dir_entries w (resolve w name))))"

text \<open>
  \<open>os.MkdirAll\<close>: fails when the path or one of its ancestors is a regular file, and
  then creates nothing; otherwise creates every missing directory on the way.
\<close>

definition ancestors :: "path \<Rightarrow> path list" where
  "ancestors p = map (\<lambda>k. take k p) [1..<Suc (length p)]"

definition mkdir_one :: "(path \<times> node) list \<Rightarrow> path \<Rightarrow> (path \<times> node) list" where
  "mkdir_one f q = (if map_of f q = None then f @ [(q, Dir)] else f)"

definition os_MkdirAll :: "string \<Rightarrow> 32 word \<Rightarrow> world \<Rightarrow> error option \<times> world" where
  "os_MkdirAll name perm w =
     (let p = resolve w name in
      if name = [] then (Some (OSErr ENOENT name), w)
      else if list_ex (\<lambda>q. case lookup w q of Some (File d m) \<Rightarrow> True | _ \<Rightarrow> False) (ancestors p)
      then (Some (OSErr ENOTDIR name), w)
      else (None, w\<lparr>fs := foldl mkdir_one (fs w) (ancestors p)\<rparr>))"

text \<open>
  \<open>os.WriteFile\<close>: the parent must be a directory and the path must not be one. A new
  file gets the permission bits given; an existing file is truncated and keeps its own.
\<close>

definition os_WriteFile :: "string \<Rightarrow> string \<Rightarrow> 32 word \<Rightarrow> world \<Rightarrow> error option \<times> world" where
  "os_WriteFile name data perm w =
     (let p = resolve w name in
      if name = [] then (Some (OSErr ENOENT name), w)
      else if p = [] then (Some (OSErr EISDIR name), w)
      else (case lookup w (butlast p) of
              None \<Rightarrow> (Some (OSErr ENOENT name), w)
            | Some (File d m) \<Rightarrow> (Some (OSErr ENOTDIR name), w)
            | Some Dir \<Rightarrow>
                (case lookup w p of
                   Some Dir \<Rightarrow> (Some (OSErr EISDIR name), w)
                 | Some (File d m) \<Rightarrow> (None, w\<lparr>fs := AList.update p (File data m) (fs w)\<rparr>)
                 | None \<Rightarrow> (None, w\<lparr>fs := AList.update p (File data perm) (fs w)\<rparr>))))"

section \<open>Package creds\<close>

text \<open>
  \<open>AssertPermissions\<close> (creds.go): the directory must exist and be a directory; every
  entry of it that is not a directory must have no group or other permission bit
  (\<open>mode & 0o077\<close>, 63 in decimal).
\<close>

fun check_entries :: "string \<Rightarrow> (string \<times> bool) list \<Rightarrow> world \<Rightarrow> error option" where
  "check_entries dir [] w = None"
| "check_entries dir ((name, isdir) # es) w =
     (if isdir then check_entries dir es w
      else (case os_Stat (filepath_Join [dir, name]) w of
              Inl e \<Rightarrow> Some e
            | Inr Dir \<Rightarrow> check_entries dir es w
            | Inr (File d m) \<Rightarrow>
                (if m AND 63 \<noteq> 0 then Some (InsecurePermissions (filepath_Join [dir, name]) m)
                 else check_entries dir es w)))"

definition AssertPermissions :: "string \<Rightarrow> world \<Rightarrow> error option" where
  "AssertPermissions dir w =
     (case os_Stat dir w of
        Inl e \<Rightarrow> Some (Wrap (''credentials directory '' @ dir) e)
      | Inr (File d m) \<Rightarrow> Some (Err ''credentials path is not a directory'')
      | Inr Dir \<Rightarrow>
          (case os_ReadDir dir w of
             Inl e \<Rightarrow> Some e
           | Inr entries \<Rightarrow> check_entries dir entries w))"

section \<open>Package ca\<close>

record CertificateMeta =
  CM_Domains :: "string list"
  PEM :: string
  Key :: string
  Issuer :: string

datatype CAClient = letsencryptClient | enterpriseClient string string string

text \<open>\<open>Resolver.Resolve\<close>: the resolver's \<open>credsDir\<close> field is never read.\<close>

definition Resolve :: "string \<Rightarrow> string \<Rightarrow> string \<Rightarrow> error + CAClient" where
  "Resolve serverURL hmacID hmacKey =
     (if serverURL = [] then Inr letsencryptClient
      else if hmacID = [] \<or> hmacKey = []
        then Inl (Err ''hmac-id and hmac-key are required for enterprise CA'')
      else Inr (enterpriseClient serverURL hmacID hmacKey))"

fun RequestCertificate ::
  "CAClient \<Rightarrow> string list \<Rightarrow> world \<Rightarrow> (error + CertificateMeta) \<times> world" where
  "RequestCertificate letsencryptClient domains w =
     (Inr \<lparr>CM_Domains = domains, PEM = ''---BEGIN CERT---'' @ [CHR 0x0A] @ ''...'',
           Key = ''---KEY---'', Issuer = ''Let's Encrypt''\<rparr>, w)"
| "RequestCertificate (enterpriseClient serverURL hmacID hmacKey) domains w =
     (let w1 = time_Sleep 1 w in
      if serverURL = [] then (Inl (Err ''serverURL required for enterprise client''), w1)
      else (Inr \<lparr>CM_Domains = domains,
                 PEM = ''---BEGIN CERT ENTERPRISE---'' @ [CHR 0x0A] @ ''...'',
                 Key = ''---KEY---'', Issuer = ''EnterpriseCA''\<rparr>, w1))"

text \<open>
  \<open>InstallCertificate\<close> only checks for nil and prints to standard output; nil is
  \<open>None\<close>.
\<close>

definition InstallCertificate :: "CertificateMeta option \<Rightarrow> error option" where
  "InstallCertificate meta =
     (case meta of None \<Rightarrow> Some (Err ''nil certificate meta'') | Some m \<Rightarrow> None)"

section \<open>Packages dns and validation\<close>

text \<open>
  A DNS provider is the pair of operations of the \<open>DNSProvider\<close> interface; each
  returns its error, if any. What a plugin does beyond returning is recorded as an
  event of the trace.
\<close>

record DNSProvider =
  Present :: "string \<Rightarrow> string \<Rightarrow> string \<Rightarrow> error option"
  CleanUp :: "string \<Rightarrow> string \<Rightarrow> string \<Rightarrow> error option"

text \<open>
  \<open>doDNS\<close> starts one goroutine per domain and waits for all of them; the model runs
  the presentations in the order of the domains. Of several errors Go returns the one
  that reached the channel first, which the scheduler decides; the model returns the
  first in domain order.
\<close>

fun present_all :: "DNSProvider \<Rightarrow> string list \<Rightarrow> world \<Rightarrow> error list \<times> world" where
  "present_all prov [] w = ([], w)"
| "present_all prov (d # ds) w =
     (let w1 = emit (DNSPresent d ''acme-token'' ''key-auth'') w;
          (errs, w2) = present_all prov ds w1
      in (case Present prov d ''acme-token'' ''key-auth'' of
            Some e \<Rightarrow> (e # errs, w2)
          | None \<Rightarrow> (errs, w2)))"

fun cleanup_all :: "DNSProvider \<Rightarrow> string list \<Rightarrow> world \<Rightarrow> world" where
  "cleanup_all prov [] w = w"
| "cleanup_all prov (d # ds) w =
     cleanup_all prov ds (emit (DNSCleanUp d ''acme-token'' ''key-auth'') w)"

definition doDNS :: "DNSProvider \<Rightarrow> string list \<Rightarrow> world \<Rightarrow> error option \<times> world" where
  "doDNS prov domains w =
     (case present_all prov domains w of
        (e # errs, w1) \<Rightarrow> (Some e, w1)
      | ([], w1) \<Rightarrow> (None, cleanup_all prov domains (time_Sleep 5 w1)))"

definition challenge_base :: string where
  "challenge_base = ''/var/www/html/.well-known/acme-challenge''"

fun write_tokens :: "string list \<Rightarrow> world \<Rightarrow> error option \<times> world" where
  "write_tokens [] w = (None, w)"
| "write_tokens (d # ds) w =
     (case os_WriteFile (filepath_Join [challenge_base, d @ ''.token'']) ''token-placeholder'' 420 w of
        (Some e, w1) \<Rightarrow> (Some e, w1)
      | (None, w1) \<Rightarrow> write_tokens ds w1)"

definition doHTTP :: "string list \<Rightarrow> world \<Rightarrow> error option \<times> world" where
  "doHTTP domains w =
     (case os_MkdirAll challenge_base 493 w of
        (Some e, w1) \<Rightarrow> (Some e, w1)
      | (None, w1) \<Rightarrow>
          (case write_tokens domains w1 of
             (Some e, w2) \<Rightarrow> (Some e, w2)
           | (None, w2) \<Rightarrow> (None, time_Sleep 2 w2)))"

text \<open>
  \<open>Validator.Validate\<close>: a Go \<open>switch\<close> on the validator's \<open>vtype\<close> string, compared
  byte for byte. A nil provider is \<open>None\<close>.
\<close>

definition Validate ::
  "string \<Rightarrow> DNSProvider option \<Rightarrow> string list \<Rightarrow> world \<Rightarrow> error option \<times> world" where
  "Validate vtype dnsProvider domains w =
     (if vtype = ''dns'' then
        (case dnsProvider of
           None \<Rightarrow> (Some (Err ''dns provider not configured''), w)
         | Some prov \<Rightarrow> doDNS prov domains w)
      else if vtype = ''http'' then doHTTP domains w
      else if vtype = ''email'' then (Some (Err ''email validation not implemented yet''), w)
      else (Some (Err (''unknown validation type: '' @ vtype)), w))"

section \<open>Package metadata\<close>

text \<open>
  \<open>CertMetadata\<close> (one record per primary domain). A \<open>time.Time\<close> is an instant of the
  world's clock; Go's \<open>int\<close> is a 64-bit word.
\<close>

type_synonym time = nat

record CertMetadata =
  Domains :: "string list"
  ValidationMethod :: string
  DNSProvider :: string
  ServerURL :: string
  HMACIDCred :: string
  CredentialsPath :: string
  InstallerType :: string
  CertPath :: string
  KeyPath :: string
  ChainPath :: string
  IssuedAt :: time
  ExpiresAt :: time
  RenewalAttempts :: "64 word"
  LastRenewalAt :: time

record AccountInfo =
  CA :: string
  Email :: string
  AccountURL :: string
  AccountKey :: string
  CreatedAt :: time
  LastUpdatedAt :: time

text \<open>
  What the standard library and the host decide is a parameter of the model:
  \<open>encoding/json\<close> on the two record types (\<open>None\<close> is a returned error), the operating
  system name, what \<open>plugin.Open\<close> and the lookup of the symbol \<open>Provider\<close> find at a
  path, and the RSA and X.509 primitives behind package keygen.
\<close>

datatype plugin_symbol =
    NoSymbol
  | SymProvider DNSProvider
  | SymProviderPtr "DNSProvider option"
  | SymOther

record env =
  json_MarshalIndent :: "CertMetadata \<Rightarrow> string option"
  json_Unmarshal :: "string \<Rightarrow> CertMetadata option"
  json_MarshalAccount :: "AccountInfo \<Rightarrow> string option"
  GOOS :: string
  plugin_Open :: "string \<Rightarrow> plugin_symbol option"
  rsa_GenerateKey :: "string option"
  pem_PrivateKey :: "string \<Rightarrow> string"
  x509_CreateCertificateRequest :: "string \<Rightarrow> string list \<Rightarrow> string option"
  pem_CertificateRequest :: "string \<Rightarrow> string"

definition certsDir :: string where
  "certsDir = ''/opt/trustctl/certs''"

text \<open>\<open>CertMetadata.Store\<close>; 0700 is 448 and 0600 is 384.\<close>

definition Store :: "env \<Rightarrow> CertMetadata \<Rightarrow> world \<Rightarrow> error option \<times> world" where
  "Store ev m w =
     (case Domains m of
        [] \<Rightarrow> (Some (Err ''no domains in metadata''), w)
      | primaryDomain # rest \<Rightarrow>
          (case os_MkdirAll (filepath_Join [certsDir, primaryDomain]) 448 w of
             (Some e, w1) \<Rightarrow> (Some e, w1)
           | (None, w1) \<Rightarrow>
               (case json_MarshalIndent ev m of
                  None \<Rightarrow> (Some JSONErr, w1)
                | Some data \<Rightarrow>
                    os_WriteFile
                      (filepath_Join [filepath_Join [certsDir, primaryDomain], ''metadata.json''])
                      data 384 w1)))"

definition Load :: "env \<Rightarrow> string \<Rightarrow> world \<Rightarrow> error + CertMetadata" where
  "Load ev domain w =
     (case os_ReadFile (filepath_Join [certsDir, domain, ''metadata.json'']) w of
        Inl e \<Rightarrow> Inl e
      | Inr data \<Rightarrow>
          (case json_Unmarshal ev data of
             None \<Rightarrow> Inl JSONErr
           | Some m \<Rightarrow> Inr m))"

definition has_metadata :: "world \<Rightarrow> string \<times> bool \<Rightarrow> bool" where
  "has_metadata w e =
     (snd e \<and> isl (os_Stat (filepath_Join [certsDir, fst e, ''metadata.json'']) w) = False)"

definition ListAll :: "world \<Rightarrow> error + string list" where
  "ListAll w =
     (case os_ReadDir certsDir w of
        Inl e \<Rightarrow> Inl e
      | Inr entries \<Rightarrow> Inr (map fst (filter (has_metadata w) entries)))"

section \<open>Package dns: the plugin loader\<close>

text \<open>
  \<open>PluginLoader.Load\<close>: the loader's \<open>credentialsDir\<close> field is never read. A symbol that
  is a pointer to a provider is dereferenced, and may then hold a nil provider.
\<close>

definition PluginLoader_Load ::
  "env \<Rightarrow> string \<Rightarrow> string \<Rightarrow> world \<Rightarrow> (error + DNSProvider option) \<times> world" where
  "PluginLoader_Load ev pluginsDir name w =
     (if GOOS ev \<noteq> ''linux''
      then (Inl (Err (''go plugin loading only supported on linux: current='' @ GOOS ev)), w)
      else
        let p = filepath_Join [pluginsDir, name @ ''.so''];
            w1 = emit (PluginOpen p) w
        in (case plugin_Open ev p of
              None \<Rightarrow> (Inl (Wrap (''open plugin '' @ p) (Err ''plugin.Open'')), w1)
            | Some NoSymbol \<Rightarrow>
                (Inl (Wrap (''provider symbol not found in '' @ p) (Err ''plugin.Lookup'')), w1)
            | Some (SymProvider prov) \<Rightarrow> (Inr (Some prov), w1)
            | Some (SymProviderPtr ptr) \<Rightarrow> (Inr ptr, w1)
            | Some SymOther \<Rightarrow> (Inl (Err (''unexpected provider type in '' @ p)), w1)))"

section \<open>Package cmd: the renew flow\<close>

definition credentialsPath :: string where
  "credentialsPath = ''/opt/trustctl/credentials''"

definition pluginsPath :: string where
  "pluginsPath = ''/opt/trustctl/plugins''"

text \<open>
  The block of \<open>renewDomain\<close> that sets up the DNS provider from the stored method
  (the stored method is compared as it is, without lower-casing).
\<close>

definition renew_provider ::
  "env \<Rightarrow> CertMetadata \<Rightarrow> world \<Rightarrow> (error + DNSProvider option) \<times> world" where
  "renew_provider ev meta w =
     (if ValidationMethod meta = ''dns'' then
        (if DNSProvider meta = []
         then (Inl (Err ''dns validation configured but no dns_provider in metadata''), w)
         else (case PluginLoader_Load ev pluginsPath (DNSProvider meta) w of
                 (Inl e, w1) \<Rightarrow> (Inl (Wrap ''failed to load dns provider'' e), w1)
               | (Inr prov, w1) \<Rightarrow> (Inr prov, w1)))
      else (Inr None, w))"

text \<open>
  The tail of \<open>renewDomain\<close> after a successful installation: the record in memory gets
  the current time and a counter one higher (\<open>renewed\<close>), and is stored; a failing store
  is only a warning.
\<close>

definition renewed :: "CertMetadata \<Rightarrow> time \<Rightarrow> CertMetadata" where
  "renewed meta t = meta\<lparr>LastRenewalAt := t, RenewalAttempts := RenewalAttempts meta + 1\<rparr>"

definition renew_persist :: "env \<Rightarrow> CertMetadata \<Rightarrow> world \<Rightarrow> error option \<times> world" where
  "renew_persist ev meta w =
     (case Store ev (renewed meta (clock w)) w of
        (Some e, w1) \<Rightarrow> (None, emit (UiWarning (Wrap ''failed to update renewal metadata'' e)) w1)
      | (None, w1) \<Rightarrow> (None, w1))"

definition renewDomain :: "env \<Rightarrow> string \<Rightarrow> world \<Rightarrow> error option \<times> world" where
  "renewDomain ev domain w =
     (case Load ev domain w of
        Inl e \<Rightarrow> (Some (Wrap (''failed to load metadata for '' @ domain) e), w)
      | Inr meta \<Rightarrow>
     (case AssertPermissions (CredentialsPath meta) w of
        Some e \<Rightarrow> (Some (Wrap ''credentials check failed'' e), w)
      | None \<Rightarrow>
     (case Resolve (ServerURL meta) (HMACIDCred meta) [] of
        Inl e \<Rightarrow> (Some (Wrap ''CA resolution failed'' e), w)
      | Inr caClient \<Rightarrow>
     (case renew_provider ev meta w of
        (Inl e, w1) \<Rightarrow> (Some e, w1)
      | (Inr dnsProvider, w1) \<Rightarrow>
     (case Validate (ValidationMethod meta) dnsProvider (Domains meta) w1 of
        (Some e, w2) \<Rightarrow> (Some (Wrap ''validation failed'' e), w2)
      | (None, w2) \<Rightarrow>
     (case RequestCertificate caClient (Domains meta) w2 of
        (Inl e, w3) \<Rightarrow> (Some (Wrap ''certificate request failed'' e), w3)
      | (Inr certMeta, w3) \<Rightarrow>
     (case InstallCertificate (Some certMeta) of
        Some e \<Rightarrow> (Some (Wrap ''installation failed'' e), w3)
      | None \<Rightarrow> renew_persist ev meta w3)))))))"

text \<open>
  \<open>renewCmd\<close>: the body of the loop over the listed domains (\<open>renew_step\<close>) reports a
  failing domain on standard error; the loop then goes on with the next domain.
\<close>

definition renew_step :: "env \<Rightarrow> string \<Rightarrow> world \<Rightarrow> world" where
  "renew_step ev domain w =
     (case renewDomain ev domain w of
        (Some e, w1) \<Rightarrow> emit (UiError (Wrap (''renewal failed for '' @ domain) e)) w1
      | (None, w1) \<Rightarrow> w1)"

fun renew_loop :: "env \<Rightarrow> string list \<Rightarrow> world \<Rightarrow> world" where
  "renew_loop ev [] w = w"
| "renew_loop ev (domain # ds) w = renew_loop ev ds (renew_step ev domain w)"

definition renewCmd :: "env \<Rightarrow> world \<Rightarrow> error option \<times> world" where
  "renewCmd ev w =
     (case ListAll w of
        Inl e \<Rightarrow>
          (Some (Wrap ''failed to list certificates'' e),
           emit (UiError (Wrap ''failed to list certificates'' e)) w)
      | Inr domains \<Rightarrow>
          (if domains = []
           then (None, emit (UiWarning (Err ''No certificates found for renewal'')) w)
           else (None, renew_loop ev domains w)))"

section \<open>Packages keygen and account\<close>

text \<open>
  A private key is the byte string of its encoding. \<open>GeneratePrivateKey\<close> is the
  parameter \<open>rsa_GenerateKey\<close>.
\<close>

definition SavePrivateKey :: "env \<Rightarrow> string \<Rightarrow> string \<Rightarrow> world \<Rightarrow> error option \<times> world" where
  "SavePrivateKey ev k name w =
     (case os_MkdirAll (filepath_Dir name) 448 w of
        (Some e, w1) \<Rightarrow> (Some e, w1)
      | (None, w1) \<Rightarrow> os_WriteFile name (pem_PrivateKey ev k) 384 w1)"

definition GenerateCSR :: "env \<Rightarrow> string \<Rightarrow> string list \<Rightarrow> error + string" where
  "GenerateCSR ev k domains =
     (if domains = [] then Inl (Err ''at least one domain required for CSR'')
      else (case x509_CreateCertificateRequest ev k domains of
              None \<Rightarrow> Inl (Err ''x509.CreateCertificateRequest'')
            | Some der \<Rightarrow> Inr (pem_CertificateRequest ev der)))"

definition SaveCSR :: "string \<Rightarrow> string \<Rightarrow> world \<Rightarrow> error option \<times> world" where
  "SaveCSR csr name w =
     (case os_MkdirAll (filepath_Dir name) 448 w of
        (Some e, w1) \<Rightarrow> (Some e, w1)
      | (None, w1) \<Rightarrow> os_WriteFile name csr 420 w1)"

definition account_file :: "string \<Rightarrow> string" where
  "account_file ca = filepath_Join [''/opt/trustctl/credentials'', ca @ ''-account.json'']"

definition account_Exists :: "string \<Rightarrow> world \<Rightarrow> bool" where
  "account_Exists ca w = (isl (os_Stat (account_file ca) w) = False)"

definition account_Create :: "string \<Rightarrow> string \<Rightarrow> world \<Rightarrow> error + AccountInfo" where
  "account_Create ca email w =
     (if ca = [] \<or> email = [] then Inl (Err ''CA name and email required'')
      else Inr \<lparr>CA = ca, Email = email,
                AccountURL = ''https://acme-v02.api.letsencrypt.org/acme/acct/12345'',
                AccountKey = filepath_Join [''/opt/trustctl/credentials'', ca @ ''-account-key.pem''],
                CreatedAt = clock w, LastUpdatedAt = 0\<rparr>)"

definition account_Store :: "env \<Rightarrow> AccountInfo \<Rightarrow> world \<Rightarrow> error option \<times> world" where
  "account_Store ev a w =
     (if CA a = [] then (Some (Err ''CA name required''), w)
      else (case os_MkdirAll ''/opt/trustctl/credentials'' 448 w of
              (Some e, w1) \<Rightarrow> (Some e, w1)
            | (None, w1) \<Rightarrow>
                (case json_MarshalAccount ev a of
                   None \<Rightarrow> (Some JSONErr, w1)
                 | Some data \<Rightarrow> os_WriteFile (account_file (CA a)) data 384 w1)))"

section \<open>Package cmd: the request flow\<close>

record flags =
  domainsFlag :: string
  validationFlag :: string
  dnsProviderFlag :: string
  serverURLFlag :: string
  hmacIDFlag :: string
  hmacKeyFlag :: string
  webrootFlag :: string
  emailFlag :: string

text \<open>
  The pattern \<open>ui.Error("msg: %v", err); return fmt.Errorf("msg: %w", err)\<close>, and the
  same with the bare \<open>err\<close> returned.
\<close>

definition fail_wrapped :: "string \<Rightarrow> error \<Rightarrow> world \<Rightarrow> error option \<times> world" where
  "fail_wrapped msg e w = (Some (Wrap msg e), emit (UiError (Wrap msg e)) w)"

definition fail_bare :: "string \<Rightarrow> error \<Rightarrow> world \<Rightarrow> error option \<times> world" where
  "fail_bare msg e w = (Some e, emit (UiError (Wrap msg e)) w)"

definition request_domains :: "flags \<Rightarrow> string list" where
  "request_domains fl = map strings_TrimSpace (strings_Split CHR '','' (domainsFlag fl))"

definition request_vtype :: "flags \<Rightarrow> string" where
  "request_vtype fl =
     (if strings_ToLower (validationFlag fl) = [] then ''http''
      else strings_ToLower (validationFlag fl))"

text \<open>
  The block ``DNS plugin loader (only needed for dns validation)'', the same text in
  every variant of the request command.
\<close>

definition request_provider ::
  "env \<Rightarrow> flags \<Rightarrow> world \<Rightarrow> (error + DNSProvider option) \<times> world" where
  "request_provider ev fl w =
     (if request_vtype fl = ''dns'' then
        (if dnsProviderFlag fl = []
         then (Inl (Err ''--dns-provider is required for dns validation''),
               emit (UiError (Err ''--dns-provider is required for dns validation'')) w)
         else (case PluginLoader_Load ev pluginsPath (dnsProviderFlag fl) w of
                 (Inl e, w1) \<Rightarrow>
                   (Inl (Wrap ''failed to load dns provider'' e),
                    emit (UiError (Wrap ''failed to load dns provider'' e)) w1)
               | (Inr prov, w1) \<Rightarrow> (Inr prov, w1)))
      else (Inr None, w))"

text \<open>Saving the metadata at the end of a request; a failing store is only a warning.\<close>

definition request_persist :: "env \<Rightarrow> CertMetadata \<Rightarrow> world \<Rightarrow> error option \<times> world" where
  "request_persist ev meta w =
     (case Store ev meta w of
        (Some e, w1) \<Rightarrow> (None, emit (UiWarning (Wrap ''failed to save metadata'' e)) w1)
      | (None, w1) \<Rightarrow> (None, w1))"

definition request_meta :: "flags \<Rightarrow> string \<Rightarrow> string \<Rightarrow> world \<Rightarrow> CertMetadata" where
  "request_meta fl certFile keyFile w =
     \<lparr>Domains = request_domains fl, ValidationMethod = request_vtype fl,
      DNSProvider = dnsProviderFlag fl, ServerURL = serverURLFlag fl,
      HMACIDCred = hmacIDFlag fl, CredentialsPath = credentialsPath,
      InstallerType = [], CertPath = certFile, KeyPath = keyFile, ChainPath = [],
      IssuedAt = clock w, ExpiresAt = 0, RenewalAttempts = 0, LastRenewalAt = 0\<rparr>"

text \<open>
  \<open>requestCmd\<close> as in the command file that also holds \<open>renewCmd\<close>: credentials check,
  CA resolution, provider, validation, certificate request, installation, metadata.
\<close>

definition requestCmd :: "env \<Rightarrow> flags \<Rightarrow> world \<Rightarrow> error option \<times> world" where
  "requestCmd ev fl w =
     (if domainsFlag fl = [] then (Some (Err ''--domains is required''), w)
      else
     (case AssertPermissions credentialsPath w of
        Some e \<Rightarrow> fail_wrapped ''credentials permission check failed'' e w
      | None \<Rightarrow>
     (case Resolve (serverURLFlag fl) (hmacIDFlag fl) (hmacKeyFlag fl) of
        Inl e \<Rightarrow> fail_wrapped ''CA resolution failed'' e w
      | Inr caClient \<Rightarrow>
     (case request_provider ev fl w of
        (Inl e, w1) \<Rightarrow> (Some e, w1)
      | (Inr dnsProvider, w1) \<Rightarrow>
     (case Validate (request_vtype fl) dnsProvider (request_domains fl) w1 of
        (Some e, w2) \<Rightarrow> fail_wrapped ''validation failed'' e w2
      | (None, w2) \<Rightarrow>
     (case RequestCertificate caClient (request_domains fl) w2 of
        (Inl e, w3) \<Rightarrow> fail_wrapped ''certificate request failed'' e w3
      | (Inr certMeta, w3) \<Rightarrow>
     (case InstallCertificate (Some certMeta) of
        Some e \<Rightarrow> fail_wrapped ''installation failed'' e w3
      | None \<Rightarrow>
          request_persist ev
            (request_meta fl
               (''/opt/trustctl/certs/'' @ hd (request_domains fl) @ ''/fullchain.pem'')
               (''/opt/trustctl/certs/'' @ hd (request_domains fl) @ ''/privkey.pem'') w3)
            w3)))))))"

text \<open>
  The request command that generates the key and the CSR itself (\<open>Request a certificate
  (like certbot)\<close>). Its first part runs up to the account: certificate directory,
  private key, CSR, the challenge directory under the web root for HTTP validation, and
  the CA account. \<open>account.Load\<close> only reads and its result is dropped.
\<close>

definition certDir :: "flags \<Rightarrow> string" where
  "certDir fl = certsDir @ ''/'' @ hd (request_domains fl)"

definition setup_challenge_dir :: "flags \<Rightarrow> world \<Rightarrow> error option \<times> world" where
  "setup_challenge_dir fl w =
     (if strings_ToLower (validationFlag fl) = [] \<or> strings_ToLower (validationFlag fl) = ''http''
      then
        (case os_MkdirAll
                ((if webrootFlag fl = [] then ''/var/www/html'' else webrootFlag fl)
                   @ ''/.well-known/acme-challenge'') 493 w of
           (Some e, w1) \<Rightarrow> fail_bare ''failed to create challenge directory'' e w1
         | (None, w1) \<Rightarrow> (None, w1))
      else (None, w))"

definition caName :: "flags \<Rightarrow> string" where
  "caName fl = (if serverURLFlag fl \<noteq> [] then ''enterprise-ca'' else ''letsencrypt'')"

definition setup_account :: "env \<Rightarrow> flags \<Rightarrow> world \<Rightarrow> error option \<times> world" where
  "setup_account ev fl w =
     (if account_Exists (caName fl) w then (None, w)
      else
        (case account_Create (caName fl)
                (if emailFlag fl = [] then ''admin@'' @ hd (request_domains fl) else emailFlag fl) w of
           Inl e \<Rightarrow> fail_bare ''failed to create account'' e w
         | Inr acc \<Rightarrow>
             (case account_Store ev acc w of
                (Some e, w1) \<Rightarrow> fail_bare ''failed to store account'' e w1
              | (None, w1) \<Rightarrow> (None, w1))))"

definition setup_keys :: "env \<Rightarrow> flags \<Rightarrow> world \<Rightarrow> error option \<times> world" where
  "setup_keys ev fl w =
     (case os_MkdirAll (certDir fl) 448 w of
        (Some e, w1) \<Rightarrow> fail_bare ''failed to create cert directory'' e w1
      | (None, w1) \<Rightarrow>
     (case rsa_GenerateKey ev of
        None \<Rightarrow> fail_bare ''failed to generate private key'' (Err ''rsa.GenerateKey'') w1
      | Some k \<Rightarrow>
     (case SavePrivateKey ev k (certDir fl @ ''/privkey.pem'') w1 of
        (Some e, w2) \<Rightarrow> fail_bare ''failed to save private key'' e w2
      | (None, w2) \<Rightarrow>
     (case GenerateCSR ev k (request_domains fl) of
        Inl e \<Rightarrow> fail_bare ''failed to generate CSR'' e w2
      | Inr csr \<Rightarrow>
     (case SaveCSR csr (certDir fl @ ''/csr.pem'') w2 of
        (Some e, w3) \<Rightarrow> fail_bare ''failed to save CSR'' e w3
      | (None, w3) \<Rightarrow> (None, w3))))))"

definition requestCmd_keygen :: "env \<Rightarrow> flags \<Rightarrow> world \<Rightarrow> error option \<times> world" where
  "requestCmd_keygen ev fl w =
     (if domainsFlag fl = [] then (Some (Err ''--domains is required''), w)
      else
     (case setup_keys ev fl w of
        (Some e, w1) \<Rightarrow> (Some e, w1)
      | (None, w1) \<Rightarrow>
     (case setup_challenge_dir fl w1 of
        (Some e, w2) \<Rightarrow> (Some e, w2)
      | (None, w2) \<Rightarrow>
     (case setup_account ev fl w2 of
        (Some e, w3) \<Rightarrow> (Some e, w3)
      | (None, w3) \<Rightarrow>
     (case AssertPermissions credentialsPath w3 of
        Some e \<Rightarrow> fail_wrapped ''credentials permission check failed'' e w3
      | None \<Rightarrow>
     (case Resolve (serverURLFlag fl) (hmacIDFlag fl) (hmacKeyFlag fl) of
        Inl e \<Rightarrow> fail_wrapped ''CA resolution failed'' e w3
      | Inr caClient \<Rightarrow>
     (case request_provider ev fl w3 of
        (Inl e, w4) \<Rightarrow> (Some e, w4)
      | (Inr dnsProvider, w4) \<Rightarrow>
     (case Validate (request_vtype fl) dnsProvider (request_domains fl) w4 of
        (Some e, w5) \<Rightarrow> fail_wrapped ''validation failed'' e w5
      | (None, w5) \<Rightarrow>
     (case RequestCertificate caClient (request_domains fl) w5 of
        (Inl e, w6) \<Rightarrow> fail_wrapped ''certificate request failed'' e w6
      | (Inr certMeta, w6) \<Rightarrow>
     (case os_WriteFile (certDir fl @ ''/fullchain.pem'') (PEM certMeta) 420 w6 of
        (Some e, w7) \<Rightarrow> fail_bare ''failed to save certificate'' e w7
      | (None, w7) \<Rightarrow>
     (case InstallCertificate (Some certMeta) of
        Some e \<Rightarrow> fail_wrapped ''installation failed'' e w7
      | None \<Rightarrow>
          request_persist ev
            (request_meta fl (certDir fl @ ''/fullchain.pem'') (certDir fl @ ''/privkey.pem'') w7)
            w7)))))))))))"

section \<open>Package install: rewriting a web-server configuration\<close>

text \<open>
  \<open>updateNginxSSL\<close> and \<open>updateApacheSSL\<close> run \<open>regexp.ReplaceAllString\<close> with the
  patterns \<open>(?m)^\s*KW\s+\S+;\<close> (nginx) and \<open>(?m)^\s*KW\s+\S+\<close> (apache), where \<open>KW\<close>
  is the directive name. In Go's syntax \<open>\s\<close> is one of tab, line feed, form feed,
  carriage return and space (not the vertical tab, which \<open>strings.TrimSpace\<close> strips
  too), \<open>\S\<close> is every other byte, and with \<open>(?m)\<close> the anchor \<open>^\<close> holds at the
  start of the text and after every line feed.

  \<open>match_directive kw semi s\<close> is the match that starts at the beginning of \<open>s\<close>, as
  the text that remains after it, or \<open>None\<close>. The directive name starts with a
  non-space byte, so \<open>\s*\<close> has to take the whole run of white space (line feeds
  included); the same holds for \<open>\s+\<close> before \<open>\S+\<close>, and the run must not be empty.
  \<open>\S+\<close> is greedy: without the semicolon (\<open>semi\<close> false) it takes the whole run \<open>t\<close> of
  non-space bytes, which must not be empty; with it, \<open>\S+\<close> gives back bytes until a
  semicolon follows, so the match ends at the last semicolon of \<open>t\<close> that is not its
  first byte.
\<close>

definition is_ws :: "char \<Rightarrow> bool" where
  "is_ws c = ((of_char c :: nat) \<in> {9, 10, 12, 13, 32})"

definition match_directive :: "string \<Rightarrow> bool \<Rightarrow> string \<Rightarrow> string option" where
  "match_directive kw semi s =
     (let s1 = dropWhile is_ws s in
      if \<not> strings_HasPrefix s1 kw then None
      else
        let s2 = drop (length kw) s1;
            s3 = dropWhile is_ws s2
        in if length s3 = length s2 then None
           else
             let t = takeWhile (\<lambda>c. \<not> is_ws c) s3;
                 r = dropWhile (\<lambda>c. \<not> is_ws c) s3
             in if semi
                then (if CHR '';'' \<in> set (tl t)
                      then Some (rev (takeWhile (\<lambda>c. c \<noteq> CHR '';'') (rev t)) @ r)
                      else None)
                else (if t = [] then None else Some r))"

text \<open>
  The replacement text is a template: \<open>$$\<close> is a dollar sign, \<open>$name\<close> and \<open>${name}\<close>
  stand for a group of the match, where the name is the longest run of letters, digits
  and underscores. The patterns have no group but the whole match, \<open>$0\<close> or \<open>${0}\<close>;
  every other well-formed reference expands to nothing, and a dollar sign that starts
  no reference stays. Letters are the ASCII letters here.
\<close>

definition is_name_char :: "char \<Rightarrow> bool" where
  "is_name_char c =
     (let n = (of_char c :: nat) in
      (48 \<le> n \<and> n \<le> 57) \<or> (65 \<le> n \<and> n \<le> 90) \<or> (97 \<le> n \<and> n \<le> 122) \<or> n = 95)"

definition group_text :: "string \<Rightarrow> string \<Rightarrow> string" where
  "group_text name m = (if name = ''0'' then m else [])"

function expand :: "string \<Rightarrow> string \<Rightarrow> string" where
  "expand [] m = []"
| "expand (c # cs) m =
     (if c \<noteq> CHR ''$'' then c # expand cs m
      else (case cs of
              [] \<Rightarrow> [c]
            | d # ds \<Rightarrow>
                if d = CHR ''$'' then CHR ''$'' # expand ds m
                else if d = CHR ''{'' then
                  (if takeWhile is_name_char ds \<noteq> [] \<and>
                      take 1 (dropWhile is_name_char ds) = ''}''
                   then group_text (takeWhile is_name_char ds) m
                          @ expand (drop 1 (dropWhile is_name_char ds)) m
                   else CHR ''$'' # expand cs m)
                else
                  (if takeWhile is_name_char cs \<noteq> []
                   then group_text (takeWhile is_name_char cs) m
                          @ expand (dropWhile is_name_char cs) m
                   else CHR ''$'' # expand cs m)))"
  by pat_completeness auto
termination
  by (relation "measure (\<lambda>(t, m). length t)")
     (auto simp: less_Suc_eq_le le_SucI length_dropWhile_le
        intro: order_trans[OF diff_le_self length_dropWhile_le, THEN le_SucI])

lemma match_shorter: "match_directive kw semi s = Some rest \<Longrightarrow> length rest < length s"
proof -
  assume a: "match_directive kw semi s = Some rest"
  let ?s1 = "dropWhile is_ws s"
  let ?s2 = "drop (length kw) ?s1"
  let ?s3 = "dropWhile is_ws ?s2"
  let ?t = "takeWhile (\<lambda>c. \<not> is_ws c) ?s3"
  let ?r = "dropWhile (\<lambda>c. \<not> is_ws c) ?s3"
  from a have ne: "length ?s3 \<noteq> length ?s2"
    by (auto simp: match_directive_def Let_def split: if_splits)
  have "length ?s3 \<le> length ?s2" by (rule length_dropWhile_le)
  with ne have l32: "length ?s3 < length ?s2" by simp
  have l2: "length ?s2 \<le> length s" using length_dropWhile_le[of is_ws s] by simp
  have tr: "length ?t + length ?r = length ?s3"
    using takeWhile_dropWhile_id[of "\<lambda>c. \<not> is_ws c" ?s3] by (metis length_append)
  have "length (rev (takeWhile (\<lambda>c. c \<noteq> CHR '';'') (rev ?t))) \<le> length ?t"
    using length_takeWhile_le[of _ "rev ?t"] by simp
  with tr have "length (rev (takeWhile (\<lambda>c. c \<noteq> CHR '';'') (rev ?t)) @ ?r) \<le> length ?s3" by simp
  moreover have "length ?r \<le> length ?s3" using tr by simp
  moreover from a have "rest = rev (takeWhile (\<lambda>c. c \<noteq> CHR '';'') (rev ?t)) @ ?r \<or> rest = ?r"
    by (auto simp: match_directive_def Let_def split: if_splits)
  ultimately have "length rest \<le> length ?s3" by auto
  with l32 l2 show ?thesis by simp
qed

text \<open>
  \<open>ReplaceAllString\<close> replaces the successive leftmost matches. A match can start
  only where \<open>^\<close> holds (\<open>bol\<close>); it is never empty and ends in a non-space byte, so
  the search goes on after it in the middle of a line. Bytes outside the matches are
  copied.
\<close>

function replace_all :: "string \<Rightarrow> bool \<Rightarrow> string \<Rightarrow> bool \<Rightarrow> string \<Rightarrow> string" where
  "replace_all kw semi repl bol [] = []"
| "replace_all kw semi repl bol (c # cs) =
     (if bol then
        (case match_directive kw semi (c # cs) of
           Some rest \<Rightarrow>
             expand repl (take (length (c # cs) - length rest) (c # cs))
               @ replace_all kw semi repl False rest
         | None \<Rightarrow> c # replace_all kw semi repl (c = CHR 0x0A) cs)
      else c # replace_all kw semi repl (c = CHR 0x0A) cs)"
  by pat_completeness auto
termination
  by (relation "measure (\<lambda>(kw, semi, repl, bol, s). length s)") (auto dest: match_shorter)

definition updateNginxSSL :: "string \<Rightarrow> string \<Rightarrow> string \<Rightarrow> string \<Rightarrow> string" where
  "updateNginxSSL content certPath keyPath domain =
     replace_all ''ssl_certificate_key'' True (''    ssl_certificate_key '' @ keyPath @ '';'') True
       (replace_all ''ssl_certificate'' True (''    ssl_certificate '' @ certPath @ '';'') True
          content)"

definition updateApacheSSL :: "string \<Rightarrow> string \<Rightarrow> string \<Rightarrow> string \<Rightarrow> string" where
  "updateApacheSSL content certPath keyPath domain =
     replace_all ''SSLCertificateKeyFile'' False (''    SSLCertificateKeyFile '' @ keyPath) True
       (replace_all ''SSLCertificateFile'' False (''    SSLCertificateFile '' @ certPath) True
          content)"

text \<open>
  \<open>os.Rename\<close> fails when the old path does not exist, when the new path is a
  directory, and when a directory would replace a file or move below itself; a file
  replaces a file, and renaming a file to itself changes nothing.
\<close>

definition rename_tree :: "path \<Rightarrow> path \<Rightarrow> (path \<times> node) list \<Rightarrow> (path \<times> node) list" where
  "rename_tree p q f =
     map (\<lambda>(k, n). if take (length p) k = p then (q @ drop (length p) k, n) else (k, n)) f"

definition os_Rename :: "string \<Rightarrow> string \<Rightarrow> world \<Rightarrow> error option \<times> world" where
  "os_Rename oldname newname w =
     (let p = resolve w oldname; q = resolve w newname in
      if oldname = [] then (Some (OSErr ENOENT oldname), w)
      else if newname = [] then (Some (OSErr ENOENT newname), w)
      else
      case lookup w p of
        None \<Rightarrow> (Some (OSErr ENOENT oldname), w)
      | Some n \<Rightarrow>
          (case lookup w q of
             Some Dir \<Rightarrow> (Some (OSErr EEXIST newname), w)
           | Some (File d m) \<Rightarrow>
               if n = Dir then (Some (OSErr ENOTDIR newname), w)
               else if p = q then (None, w)
               else (None, w\<lparr>fs := AList.update q n (AList.delete p (fs w))\<rparr>)
           | None \<Rightarrow>
               (case lookup w (butlast q) of
                  None \<Rightarrow> (Some (OSErr ENOENT newname), w)
                | Some (File d m) \<Rightarrow> (Some (OSErr ENOTDIR newname), w)
                | Some Dir \<Rightarrow>
                    if n \<noteq> Dir then (None, w\<lparr>fs := AList.update q n (AList.delete p (fs w))\<rparr>)
                    else if p = [] then (Some (OSErr EBUSY oldname), w)
                    else if take (length p) q = p then (Some (OSErr EINVAL newname), w)
                    else (None, w\<lparr>fs := rename_tree p q (fs w)\<rparr>))))"

text \<open>
  \<open>copyFile\<close>: \<open>os.Open\<close> of the source, \<open>os.Create\<close> of the destination (mode 0666,
  an existing file is truncated), then \<open>io.Copy\<close>, which fails on a directory.
\<close>

definition copyFile :: "string \<Rightarrow> string \<Rightarrow> world \<Rightarrow> error option \<times> world" where
  "copyFile src dst w =
     (case os_Stat src w of
        Inl e \<Rightarrow> (Some e, w)
      | Inr n \<Rightarrow>
          (case os_WriteFile dst [] 438 w of
             (Some e, w1) \<Rightarrow> (Some e, w1)
           | (None, w1) \<Rightarrow>
               (case os_ReadFile src w1 of
                  Inl e \<Rightarrow> (Some e, w1)
                | Inr d \<Rightarrow> os_WriteFile dst d 438 w1)))"

text \<open>
  \<open>fmt.Sprintf("%d", n)\<close> for the seconds of \<open>time.Now().Unix()\<close>, a 64-bit integer and
  so of at most 19 decimal digits.
\<close>

fun itoa_digits :: "nat \<Rightarrow> nat \<Rightarrow> string" where
  "itoa_digits 0 n = []"
| "itoa_digits (Suc k) n =
     (if n < 10 then [char_of (48 + n)]
      else itoa_digits k (n div 10) @ [char_of (48 + n mod 10)])"

definition itoa :: "nat \<Rightarrow> string" where
  "itoa n = itoa_digits 19 n"

definition backupAndWriteFile :: "string \<Rightarrow> string \<Rightarrow> world \<Rightarrow> error option \<times> world" where
  "backupAndWriteFile path data w =
     (let bak = path @ ''.bak.'' @ itoa (clock w) in
      case copyFile path bak w of
        (Some e, w1) \<Rightarrow> (Some (Wrap ''backup failed'' e), w1)
      | (None, w1) \<Rightarrow>
          (let tmp = path @ ''.tmp'' in
           case os_WriteFile tmp data 420 w1 of
             (Some e, w2) \<Rightarrow> (Some e, w2)
           | (None, w2) \<Rightarrow> os_Rename tmp path w2))"

text \<open>
  \<open>collectFiles\<close>: the entries that are not directories, of every listed directory that
  can be read, in the order of the directories and, inside one, of the file names.
\<close>

definition nginxSitesDirs :: "string list" where
  "nginxSitesDirs =
     [''/etc/nginx/sites-enabled'', ''/etc/nginx/sites-available'', ''/etc/nginx/conf.d'']"

definition apacheSitesDirs :: "string list" where
  "apacheSitesDirs =
     [''/etc/apache2/sites-enabled'', ''/etc/apache2/sites-available'', ''/etc/httpd/conf.d'']"

definition collectFiles :: "string list \<Rightarrow> world \<Rightarrow> string list" where
  "collectFiles dirs w =
     concat (map (\<lambda>d. case os_ReadDir d w of
                         Inl e \<Rightarrow> []
                       | Inr entries \<Rightarrow>
                           map (\<lambda>e. filepath_Join [d, fst e]) (filter (\<lambda>e. \<not> snd e) entries))
                 dirs)"

text \<open>
  The lines a \<open>bufio.Scanner\<close> gives: the text between line feeds, each without one
  trailing carriage return; no empty line after the last line feed. The scanner stops
  before the first line of more than 65535 bytes, which does not fit its buffer.
\<close>

definition drop_cr :: "string \<Rightarrow> string" where
  "drop_cr l = (if l \<noteq> [] \<and> last l = CHR 0x0D then butlast l else l)"

definition scanner_lines :: "string \<Rightarrow> string list" where
  "scanner_lines s =
     (let segs = strings_Split CHR 0x0A s;
          ls = (if last segs = [] then butlast segs else segs)
      in map drop_cr (takeWhile (\<lambda>l. length l \<le> 65535) ls))"

fun nginx_server_name :: "string \<Rightarrow> string list \<Rightarrow> string" where
  "nginx_server_name domain [] = domain"
| "nginx_server_name domain (l # ls) =
     (if strings_Contains l ''server_name'' \<and> strings_Contains l domain
         \<and> 2 \<le> length (strings_Fields l)
      then strings_Join (tl (strings_Fields l)) '' ''
      else nginx_server_name domain ls)"

definition extractNginxServerName :: "string \<Rightarrow> string \<Rightarrow> string" where
  "extractNginxServerName content domain = nginx_server_name domain (scanner_lines content)"

definition buildNginx443Block :: "string \<Rightarrow> string \<Rightarrow> string \<Rightarrow> string" where
  "buildNginx443Block serverName certPath keyPath =
     ''server {\<newline>'' @
     CHR 0x09 # ''listen 443 ssl;\<newline>'' @
     CHR 0x09 # ''server_name '' @ serverName @ '';\<newline>'' @
     CHR 0x09 # ''ssl_certificate '' @ certPath @ '';\<newline>'' @
     CHR 0x09 # ''ssl_certificate_key '' @ keyPath @ '';\<newline>'' @
     CHR 0x09 # ''# proxy/serve static content as appropriate\<newline>'' @
     ''}\<newline>''"

fun apache_server_name :: "string \<Rightarrow> string list \<Rightarrow> string" where
  "apache_server_name domain [] = domain"
| "apache_server_name domain (l # ls) =
     (if strings_HasPrefix (strings_TrimSpace l) ''ServerName ''
         \<and> strings_Contains (strings_TrimSpace l) domain
         \<and> 2 \<le> length (strings_Fields (strings_TrimSpace l))
      then strings_Fields (strings_TrimSpace l) ! 1
      else apache_server_name domain ls)"

definition extractApacheServerName :: "string \<Rightarrow> string \<Rightarrow> string" where
  "extractApacheServerName content domain = apache_server_name domain (scanner_lines content)"

definition buildApache443Block :: "string \<Rightarrow> string \<Rightarrow> string \<Rightarrow> string" where
  "buildApache443Block serverName certPath keyPath =
     ''<VirtualHost *:443>\<newline>'' @
     CHR 0x09 # ''ServerName '' @ serverName @ ''\<newline>'' @
     CHR 0x09 # ''SSLEngine on\<newline>'' @
     CHR 0x09 # ''SSLCertificateFile '' @ certPath @ ''\<newline>'' @
     CHR 0x09 # ''SSLCertificateKeyFile '' @ keyPath @ ''\<newline>'' @
     CHR 0x09 # ''# DocumentRoot /var/www/html\<newline>'' @
     ''</VirtualHost>\<newline>''"

text \<open>
  \<open>installNginxForDomain\<close> and \<open>installApacheForDomain\<close>: the files are collected once,
  at the start; the body of the loop (\<open>installNginxFile\<close>, \<open>installApacheFile\<close>) skips a
  file that cannot be read or holds no port-80 vhost of the domain, rewrites the
  directive lines when the file holds a vhost for port 443 (the update path, which
  writes only when the text changes), and otherwise appends a new vhost. The first
  failing write ends the loop with its error. What is printed on standard output is
  not modelled.
\<close>

definition installNginxFile ::
  "string \<Rightarrow> string \<Rightarrow> string \<Rightarrow> string \<Rightarrow> world \<Rightarrow> error option \<times> world" where
  "installNginxFile domain certPath keyPath f w =
     (case os_ReadFile f w of
        Inl e \<Rightarrow> (None, w)
      | Inr s \<Rightarrow>
          if strings_Contains s ''listen 80'' \<and> strings_Contains s domain then
            if strings_Contains s ''listen 443'' \<and> strings_Contains s domain then
              (let new = updateNginxSSL s certPath keyPath domain in
               if new = s then (None, w) else backupAndWriteFile f new w)
            else
              (let serverName = extractNginxServerName s domain;
                   block = buildNginx443Block serverName certPath keyPath;
                   new = s @ ''\<newline>\<newline>'' @ block @ ''\<newline>''
               in backupAndWriteFile f new w)
          else (None, w))"

definition installApacheFile ::
  "string \<Rightarrow> string \<Rightarrow> string \<Rightarrow> string \<Rightarrow> world \<Rightarrow> error option \<times> world" where
  "installApacheFile domain certPath keyPath f w =
     (case os_ReadFile f w of
        Inl e \<Rightarrow> (None, w)
      | Inr s \<Rightarrow>
          if (strings_Contains s ''<VirtualHost'' \<and> strings_Contains s '':80'') \<and>
             (strings_Contains s (''ServerName '' @ domain) \<or>
              strings_Contains s (''ServerAlias '' @ domain)) then
            if strings_Contains s '':443'' then
              (let new = updateApacheSSL s certPath keyPath domain in
               if new = s then (None, w) else backupAndWriteFile f new w)
            else
              (let serverName = extractApacheServerName s domain;
                   block = buildApache443Block serverName certPath keyPath;
                   new = s @ ''\<newline>\<newline>'' @ block @ ''\<newline>''
               in backupAndWriteFile f new w)
          else (None, w))"

fun install_loop ::
  "(string \<Rightarrow> world \<Rightarrow> error option \<times> world) \<Rightarrow> string list \<Rightarrow> world \<Rightarrow> error option \<times> world" where
  "install_loop body [] w = (None, w)"
| "install_loop body (f # files) w =
     (case body f w of
        (Some e, w1) \<Rightarrow> (Some e, w1)
      | (None, w1) \<Rightarrow> install_loop body files w1)"

definition installNginxForDomain ::
  "string \<Rightarrow> string \<Rightarrow> string \<Rightarrow> world \<Rightarrow> error option \<times> world" where
  "installNginxForDomain domain certPath keyPath w =
     install_loop (installNginxFile domain certPath keyPath) (collectFiles nginxSitesDirs w) w"

definition installApacheForDomain ::
  "string \<Rightarrow> string \<Rightarrow> string \<Rightarrow> world \<Rightarrow> error option \<times> world" where
  "installApacheForDomain domain certPath keyPath w =
     install_loop (installApacheFile domain certPath keyPath) (collectFiles apacheSitesDirs w) w"

section \<open>Auxiliary predicates for the proofs\<close>



definition same_shape :: "world \<Rightarrow> world \<Rightarrow> bool" where
  "same_shape w w' =
     (cwd w' = cwd w \<and> map fst (fs w') = map fst (fs w) \<and>
      map (\<lambda>e. snd e = Dir) (fs w') = map (\<lambda>e. snd e = Dir) (fs w))"



definition quiet_or_one_error :: "world \<Rightarrow> error option \<times> world \<Rightarrow> bool" where
  "quiet_or_one_error w res =
     (clock (snd res) = clock w \<and> cwd (snd res) = cwd w \<and>
      (fst res = None \<longrightarrow> trace (snd res) = trace w) \<and>
      (fst res \<noteq> None \<longrightarrow> (\<exists>x. trace (snd res) = trace w @ [UiError x])))"

text \<open>
  For the configuration rewriting: the \<open>first_word\<close> and \<open>second_word\<close> of a text are
  its first two runs of non-space bytes. A \<open>plain_word\<close> is not empty and holds neither
  white space nor a dollar sign. \<open>directive_line kw semi P\<close> is the line the installer
  writes for the directive \<open>kw\<close> and the path \<open>P\<close>. \<open>rest_ok\<close> is what holds of the text
  after a match: it does not start with a byte the match could have taken. A text is
  \<open>settled\<close> when every match in it, in the order the replacement finds them, is a
  line the installer writes.
\<close>

definition first_word :: "string \<Rightarrow> string" where
  "first_word s = takeWhile (\<lambda>c. \<not> is_ws c) (dropWhile is_ws s)"

definition second_word :: "string \<Rightarrow> string" where
  "second_word s = first_word (dropWhile (\<lambda>c. \<not> is_ws c) (dropWhile is_ws s))"

definition plain_word :: "string \<Rightarrow> bool" where
  "plain_word u = (u \<noteq> [] \<and> (\<forall>c \<in> set u. \<not> is_ws c) \<and> CHR ''$'' \<notin> set u)"

definition directive_line :: "string \<Rightarrow> bool \<Rightarrow> string \<Rightarrow> string" where
  "directive_line kw semi P = ''    '' @ kw @ '' '' @ P @ (if semi then '';'' else [])"

definition rest_ok :: "bool \<Rightarrow> string \<Rightarrow> bool" where
  "rest_ok semi y = (if semi then CHR '';'' \<notin> set (takeWhile (\<lambda>c. \<not> is_ws c) y)
                     else takeWhile (\<lambda>c. \<not> is_ws c) y = [])"

abbreviation rep :: "string \<Rightarrow> bool \<Rightarrow> string \<Rightarrow> bool \<Rightarrow> string \<Rightarrow> string" where
  "rep kw semi P \<equiv> replace_all kw semi (directive_line kw semi P)"

inductive settled :: "string \<Rightarrow> bool \<Rightarrow> string \<Rightarrow> bool \<Rightarrow> string \<Rightarrow> bool"
  for kw :: string and semi :: bool and P :: string where
  settled_Nil: "settled kw semi P b []"
| settled_copy: "\<not> b \<or> match_directive kw semi (c # cs) = None \<Longrightarrow>
     settled kw semi P (c = CHR 0x0A) cs \<Longrightarrow> settled kw semi P b (c # cs)"
| settled_line: "rest_ok semi rest \<Longrightarrow> settled kw semi P False rest \<Longrightarrow>
     settled kw semi P True (directive_line kw semi P @ rest)"

section \<open>A sample environment and sample worlds\<close>

text \<open>
  Concrete inputs for the closed theorems below. The sample JSON codec writes a record
  as a line of its fields and reads back the records of a fixed table; everything else
  does not parse. The provider accepts every call, no plugin file exists, the host is
  Linux.
\<close>

definition demo_provider :: DNSProvider where
  "demo_provider = \<lparr>Present = (\<lambda>d t k. None), CleanUp = (\<lambda>d t k. None)\<rparr>"

definition meta_for :: "string \<Rightarrow> string \<Rightarrow> string \<Rightarrow> CertMetadata" where
  "meta_for d method url =
     \<lparr>Domains = [d], ValidationMethod = method, DNSProvider = [], ServerURL = url,
      HMACIDCred = (if url = [] then [] else ''hmac-id''), CredentialsPath = credentialsPath,
      InstallerType = [], CertPath = ''/opt/trustctl/certs/'' @ d @ ''/fullchain.pem'',
      KeyPath = ''/opt/trustctl/certs/'' @ d @ ''/privkey.pem'', ChainPath = [],
      IssuedAt = 1, ExpiresAt = 0, RenewalAttempts = 0, LastRenewalAt = 0\<rparr>"

definition demo_encode :: "CertMetadata \<Rightarrow> string" where
  "demo_encode m =
     strings_Join
       [strings_Join (Domains m) '','', ValidationMethod m, DNSProvider m, ServerURL m,
        HMACIDCred m, CredentialsPath m, replicate (unat (RenewalAttempts m)) CHR ''+'',
        replicate (LastRenewalAt m) CHR ''t''] '';''"

definition demo_records :: "CertMetadata list" where
  "demo_records =
     [meta_for ''a.example'' ''email'' [],
      meta_for ''b.example'' ''http'' [],
      renewed (meta_for ''b.example'' ''http'' []) 9,
      meta_for ''c.example'' ''http'' ''https://ca.corp.example'']"

definition demo_env :: env where
  "demo_env =
     \<lparr>json_MarshalIndent = (\<lambda>m. Some (demo_encode m)),
      json_Unmarshal = (\<lambda>s. map_of (map (\<lambda>m. (demo_encode m, m)) demo_records) s),
      json_MarshalAccount = (\<lambda>a. Some (CA a @ '';'' @ Email a)),
      GOOS = ''linux'',
      plugin_Open = (\<lambda>p. None),
      rsa_GenerateKey = Some ''key'',
      pem_PrivateKey = (\<lambda>k. ''PEM:'' @ k),
      x509_CreateCertificateRequest = (\<lambda>k ds. Some (''csr:'' @ strings_Join ds '','')),
      pem_CertificateRequest = (\<lambda>der. ''PEM:'' @ der)\<rparr>"

definition base_fs :: "(path \<times> node) list" where
  "base_fs =
     [([''opt''], Dir), ([''opt'', ''trustctl''], Dir),
      ([''opt'', ''trustctl'', ''certs''], Dir),
      ([''opt'', ''trustctl'', ''credentials''], Dir)]"

definition cert_entry :: "string \<Rightarrow> string \<Rightarrow> (path \<times> node) list" where
  "cert_entry d content =
     [([''opt'', ''trustctl'', ''certs'', d], Dir),
      ([''opt'', ''trustctl'', ''certs'', d, ''metadata.json''], File content 384)]"

definition world_of :: "(path \<times> node) list \<Rightarrow> world" where
  "world_of f = \<lparr>fs = f, cwd = [], clock = 7, trace = []\<rparr>"

definition empty_world :: world where
  "empty_world = world_of base_fs"

definition demo_world :: world where
  "demo_world =
     world_of (base_fs
       @ cert_entry ''b.example'' (demo_encode (meta_for ''b.example'' ''http'' []))
       @ cert_entry ''a.example'' (demo_encode (meta_for ''a.example'' ''email'' [])))"

definition ent_world :: world where
  "ent_world =
     world_of (base_fs
       @ cert_entry ''c.example'' (demo_encode (meta_for ''c.example'' ''http'' ''https://ca.corp.example'')))"

definition ent_world_insecure :: world where
  "ent_world_insecure =
     world_of (base_fs
       @ [([''opt'', ''trustctl'', ''credentials'', ''api.key''], File ''secret'' 420)]
       @ cert_entry ''c.example'' (demo_encode (meta_for ''c.example'' ''http'' ''https://ca.corp.example'')))"

definition bad_world :: world where
  "bad_world = world_of (base_fs @ cert_entry ''b.example'' ''not json'')"


definition good_world :: world where
  "good_world =
     world_of (base_fs @ cert_entry ''b.example'' (demo_encode (meta_for ''b.example'' ''http'' [])))"

definition demo_flags :: "string \<Rightarrow> string \<Rightarrow> flags" where
  "demo_flags method webroot =
     \<lparr>domainsFlag = ''b.example'', validationFlag = method, dnsProviderFlag = [],
      serverURLFlag = [], hmacIDFlag = [], hmacKeyFlag = [], webrootFlag = webroot,
      emailFlag = []\<rparr>"

text \<open>
  A host with one nginx and one apache site file, each with a vhost of \<open>b.example\<close> for
  port 80 and one for port 443 whose directive lines name old certificate and key
  files. In \<open>settled_world\<close> the nginx file names the new files already.
\<close>

definition nginx_conf :: string where
  "nginx_conf =
     ''server {\<newline>  listen 80;\<newline>  server_name b.example;\<newline>}\<newline>'' @
     ''server {\<newline>  listen 443 ssl;\<newline>  server_name b.example;\<newline>'' @
     ''  ssl_certificate /old/c.pem;\<newline>  ssl_certificate_key /old/k.pem;\<newline>}\<newline>''"

definition nginx_conf_new :: string where
  "nginx_conf_new =
     ''server {\<newline>  listen 80;\<newline>  server_name b.example;\<newline>}\<newline>'' @
     ''server {\<newline>  listen 443 ssl;\<newline>  server_name b.example;\<newline>'' @
     ''    ssl_certificate /etc/ssl/c.pem;\<newline>    ssl_certificate_key /etc/ssl/k.pem;\<newline>}\<newline>''"

definition apache_conf :: string where
  "apache_conf =
     ''<VirtualHost *:80>\<newline>  ServerName b.example\<newline></VirtualHost>\<newline>'' @
     ''<VirtualHost *:443>\<newline>  ServerName b.example\<newline>'' @
     ''  SSLCertificateFile /old/c.pem\<newline>  SSLCertificateKeyFile /old/k.pem\<newline>'' @
     ''</VirtualHost>\<newline>''"

definition apache_conf_new :: string where
  "apache_conf_new =
     ''<VirtualHost *:80>\<newline>  ServerName b.example\<newline></VirtualHost>\<newline>'' @
     ''<VirtualHost *:443>\<newline>  ServerName b.example\<newline>'' @
     ''    SSLCertificateFile /etc/ssl/c.pem\<newline>    SSLCertificateKeyFile /etc/ssl/k.pem\<newline>'' @
     ''</VirtualHost>\<newline>''"

definition nginx_site :: string where
  "nginx_site = ''/etc/nginx/sites-enabled/b.conf''"

definition apache_site :: string where
  "apache_site = ''/etc/apache2/sites-enabled/b.conf''"

definition web_fs :: "string \<Rightarrow> string \<Rightarrow> (path \<times> node) list" where
  "web_fs n a =
     [([''etc''], Dir),
      ([''etc'', ''nginx''], Dir), ([''etc'', ''nginx'', ''sites-enabled''], Dir),
      ([''etc'', ''nginx'', ''sites-enabled'', ''b.conf''], File n 420),
      ([''etc'', ''apache2''], Dir), ([''etc'', ''apache2'', ''sites-enabled''], Dir),
      ([''etc'', ''apache2'', ''sites-enabled'', ''b.conf''], File a 420)]"

definition web_world :: world where
  "web_world = world_of (web_fs nginx_conf apache_conf)"

definition settled_world :: world where
  "settled_world = world_of (web_fs nginx_conf_new apache_conf_new)"

text \<open>
  The sample host after one and after two calls of \<open>installNginxForDomain\<close> with the new
  paths, at time 7: the first call leaves a backup of the site file beside it, the
  second call rewrites that backup and leaves a backup of the backup.
\<close>

definition nginx_once :: world where
  "nginx_once =
     world_of (web_fs nginx_conf_new apache_conf @
       [([''etc'', ''nginx'', ''sites-enabled'', ''b.conf.bak.7''], File nginx_conf 438)])"

definition nginx_twice :: world where
  "nginx_twice =
     world_of (web_fs nginx_conf_new apache_conf @
       [([''etc'', ''nginx'', ''sites-enabled'', ''b.conf.bak.7''], File nginx_conf_new 420),
        ([''etc'', ''nginx'', ''sites-enabled'', ''b.conf.bak.7.bak.7''], File nginx_conf 438)])"

section \<open>Facts about paths and the file system\<close>




















lemma is_rooted_Join: "is_rooted a \<Longrightarrow> is_rooted (strings_Join (a # es) ''/'')"
  by (cases es) (auto simp: is_rooted_def split: list.splits)


lemma is_rooted_Join2: "is_rooted a \<Longrightarrow> is_rooted (filepath_Join (a # es))"
proof -
  assume assms: "is_rooted a"
  let ?j = "strings_Join (a # es) ''/''"
  have r: "is_rooted ?j" using assms by (rule is_rooted_Join)
  have ne: "?j \<noteq> []" using r by (auto simp: is_rooted_def)
  have a: "a \<noteq> []" using assms by (auto simp: is_rooted_def)
  show ?thesis using a r ne by (simp add: filepath_Join_def filepath_Clean_def Let_def is_rooted_def)
qed

lemma resolve_fs_indep [simp]:
  "resolve (w\<lparr>fs := f\<rparr>) s = resolve w s"
  "resolve (w\<lparr>trace := t\<rparr>) s = resolve w s"
  "resolve (w\<lparr>clock := c\<rparr>) s = resolve w s"
  by (simp_all add: resolve_def)








lemma WriteFile_lookup:
  assumes "os_WriteFile name data perm w = (None, w')"
  shows "\<exists>m. lookup w' p = (if p = resolve w name then Some (File data m) else lookup w p)"
    and "cwd w' = cwd w" and "clock w' = clock w" and "trace w' = trace w"
  using assms
  by (auto simp: os_WriteFile_def Let_def lookup_def update_conv' split: if_splits option.splits node.splits)


lemma resolve_cwd: "cwd w' = cwd w \<Longrightarrow> resolve w' s = resolve w s"
  by (simp add: resolve_def)

lemma ReadFile_lookup:
  "os_ReadFile name w = Inr d \<longleftrightarrow>
     name \<noteq> [] \<and> (\<exists>m. lookup w (resolve w name) = Some (File d m))"
  by (auto simp: os_ReadFile_def split: option.splits node.splits)

lemma certsDir_rooted: "is_rooted certsDir"
  by (simp add: certsDir_def is_rooted_def)

lemma Join_rooted_nonempty: "is_rooted a \<Longrightarrow> filepath_Join (a # es) \<noteq> []"
  using is_rooted_Join2[of a es] by (auto simp: is_rooted_def)

lemma Join_certsDir_nonempty [simp]: "filepath_Join (certsDir # es) \<noteq> []"
  by (rule Join_rooted_nonempty[OF certsDir_rooted])










lemma challenge_base_rooted: "is_rooted challenge_base"
  by (simp add: challenge_base_def is_rooted_def)

lemma Join_challenge_base_nonempty [simp]: "filepath_Join (challenge_base # es) \<noteq> []"
  by (rule Join_rooted_nonempty[OF challenge_base_rooted])






lemma emit_frame [simp]:
  "fs (emit e w) = fs w" "cwd (emit e w) = cwd w" "clock (emit e w) = clock w"
  "trace (emit e w) = trace w @ [e]"
  by (simp_all add: emit_def)

lemma Sleep_frame [simp]:
  "fs (time_Sleep n w) = fs w" "cwd (time_Sleep n w) = cwd w"
  "clock (time_Sleep n w) = clock w + n" "trace (time_Sleep n w) = trace w"
  by (simp_all add: time_Sleep_def)












lemma Resolve_no_key:
  "url \<noteq> [] \<Longrightarrow> Resolve url hid [] = Inl (Err ''hmac-id and hmac-key are required for enterprise CA'')"
  by (simp add: Resolve_def)

lemma renewDomain_enterprise:
  assumes "Load ev d w = Inr meta" and "ServerURL meta \<noteq> []"
  shows "Resolve (ServerURL meta) (HMACIDCred meta) [] = Inl (Err ''hmac-id and hmac-key are required for enterprise CA'') \<and>
         renewDomain ev d w =
           (case AssertPermissions (CredentialsPath meta) w of
              Some e \<Rightarrow> (Some (Wrap ''credentials check failed'' e), w)
            | None \<Rightarrow> (Some (Wrap ''CA resolution failed'' (Err ''hmac-id and hmac-key are required for enterprise CA'')), w))"
  using assms by (simp add: renewDomain_def Resolve_no_key split: option.splits)

lemma renew_loop_foldl: "renew_loop ev ds w = foldl (\<lambda>v d. renew_step ev d v) w ds"
  by (induction ds arbitrary: w) auto

lemma renewCmd_result:
  assumes "ListAll w = Inr ds"
  shows "fst (renewCmd ev w) = None \<and>
         (ds = [] \<longrightarrow> snd (renewCmd ev w) = emit (UiWarning (Err ''No certificates found for renewal'')) w) \<and>
         (ds \<noteq> [] \<longrightarrow> snd (renewCmd ev w) = foldl (\<lambda>v d. renew_step ev d v) w ds) \<and>
         (\<forall>d v. renew_step ev d v =
            (case fst (renewDomain ev d v) of
               Some e \<Rightarrow> emit (UiError (Wrap (''renewal failed for '' @ d) e)) (snd (renewDomain ev d v))
             | None \<Rightarrow> snd (renewDomain ev d v)))"
  using assms by (auto simp: renewCmd_def renew_loop_foldl renew_step_def split: prod.splits option.splits)

lemma Validate_exact:
  "Validate ''dns'' None ds w = (Some (Err ''dns provider not configured''), w) \<and>
   Validate ''dns'' (Some p) ds w = doDNS p ds w \<and>
   Validate ''http'' prov ds w = doHTTP ds w \<and>
   Validate ''email'' prov ds w = (Some (Err ''email validation not implemented yet''), w) \<and>
   (vtype \<noteq> ''dns'' \<and> vtype \<noteq> ''http'' \<and> vtype \<noteq> ''email'' \<longrightarrow>
      Validate vtype prov ds w = (Some (Err (''unknown validation type: '' @ vtype)), w))"
  by (simp add: Validate_def)

lemma lower_char_idem: "lower_char (lower_char c) = lower_char c"
  by (cases c) (auto simp: lower_char_def Let_def)

lemma ToLower_idem: "strings_ToLower (strings_ToLower s) = strings_ToLower s"
  by (simp add: strings_ToLower_def lower_char_idem)

lemma lowered_basic:
  "request_vtype (fl\<lparr>validationFlag := strings_ToLower (validationFlag fl)\<rparr>) = request_vtype fl"
  "request_domains (fl\<lparr>validationFlag := v\<rparr>) = request_domains fl"
  "caName (fl\<lparr>validationFlag := v\<rparr>) = caName fl"
  by (simp_all add: request_vtype_def request_domains_def ToLower_idem caName_def)

lemma lowered_certDir: "certDir (fl\<lparr>validationFlag := v\<rparr>) = certDir fl"
  by (simp add: certDir_def lowered_basic)

lemma lowered_provider:
  "request_provider ev (fl\<lparr>validationFlag := strings_ToLower (validationFlag fl)\<rparr>) = request_provider ev fl"
  by (rule ext) (simp add: request_provider_def lowered_basic cong: option.case_cong sum.case_cong prod.case_cong)

lemma lowered_meta:
  "request_meta (fl\<lparr>validationFlag := strings_ToLower (validationFlag fl)\<rparr>) = request_meta fl"
  by (intro ext) (simp add: request_meta_def lowered_basic)

lemma lowered_setup_keys: "setup_keys ev (fl\<lparr>validationFlag := v\<rparr>) = setup_keys ev fl"
  by (rule ext) (simp add: setup_keys_def lowered_basic lowered_certDir cong: option.case_cong sum.case_cong prod.case_cong)

lemma lowered_setup_account: "setup_account ev (fl\<lparr>validationFlag := v\<rparr>) = setup_account ev fl"
  by (rule ext) (simp add: setup_account_def lowered_basic cong: option.case_cong sum.case_cong prod.case_cong)

lemma lowered_setup_challenge:
  "setup_challenge_dir (fl\<lparr>validationFlag := strings_ToLower (validationFlag fl)\<rparr>) = setup_challenge_dir fl"
  by (rule ext) (simp add: setup_challenge_dir_def ToLower_idem cong: option.case_cong sum.case_cong prod.case_cong)

lemmas lowered_flags = lowered_basic lowered_certDir lowered_provider lowered_meta lowered_setup_keys
  lowered_setup_account lowered_setup_challenge

lemma request_lowercases:
  "requestCmd ev (fl\<lparr>validationFlag := strings_ToLower (validationFlag fl)\<rparr>) w = requestCmd ev fl w"
  unfolding requestCmd_def
  by (simp add: lowered_flags cong: option.case_cong sum.case_cong prod.case_cong)

lemma request_keygen_lowercases:
  "requestCmd_keygen ev (fl\<lparr>validationFlag := strings_ToLower (validationFlag fl)\<rparr>) w = requestCmd_keygen ev fl w"
  unfolding requestCmd_keygen_def
  by (simp add: lowered_flags cong: option.case_cong sum.case_cong prod.case_cong)

lemma ListAll_char:
  assumes "os_ReadDir certsDir w = Inr entries"
  shows "ListAll w = Inr (map fst (filter (\<lambda>e. snd e \<and>
            lookup w (resolve w (filepath_Join [certsDir, fst e, ''metadata.json''])) \<noteq> None) entries))"
proof -
  have "has_metadata w = (\<lambda>e. snd e \<and> lookup w (resolve w (filepath_Join [certsDir, fst e, ''metadata.json''])) \<noteq> None)"
    by (rule ext) (simp add: has_metadata_def os_Stat_def split: option.splits)
  with assms show ?thesis by (simp add: ListAll_def)
qed

lemma same_shape_map_of:
  assumes "map fst f' = map fst f" and "map (\<lambda>e. snd e = Dir) f' = map (\<lambda>e. snd e = Dir) (f :: (path \<times> node) list)"
  shows "(map_of f' p = None \<longleftrightarrow> map_of f p = None) \<and> (map_of f' p = Some Dir \<longleftrightarrow> map_of f p = Some Dir)"
  using assms
proof (induction f arbitrary: f')
  case Nil
  then show ?case by simp
next
  case (Cons a f)
  then obtain b g where f': "f' = b # g" by (cases f') auto
  with Cons.prems have "fst b = fst a" "(snd b = Dir) = (snd a = Dir)" "map fst g = map fst f"
    "map (\<lambda>e. snd e = Dir) g = map (\<lambda>e. snd e = Dir) f" by auto
  with Cons.IH[of g] f' show ?case by (cases a; cases b) auto
qed

lemma same_shape_entries:
  assumes "map fst f' = map fst f" and "map (\<lambda>e. snd e = Dir) f' = map (\<lambda>e. snd e = Dir) (f :: (path \<times> node) list)"
  shows "map (\<lambda>(q, n). (last q, n = Dir)) (filter (\<lambda>(q, n). q \<noteq> [] \<and> butlast q = p) f')
       = map (\<lambda>(q, n). (last q, n = Dir)) (filter (\<lambda>(q, n). q \<noteq> [] \<and> butlast q = p) f)"
  using assms
proof (induction f arbitrary: f')
  case Nil
  then show ?case by simp
next
  case (Cons a f)
  then obtain b g where f': "f' = b # g" by (cases f') auto
  with Cons.prems have "fst b = fst a" "(snd b = Dir) = (snd a = Dir)" "map fst g = map fst f"
    "map (\<lambda>e. snd e = Dir) g = map (\<lambda>e. snd e = Dir) f" by auto
  with Cons.IH[of g] f' show ?case by (cases a; cases b) auto
qed

lemma ListAll_shape:
  assumes "same_shape w w'"
  shows "ListAll w' = ListAll w \<or> (isl (ListAll w') \<and> isl (ListAll w))"
proof -
  from assms have c: "cwd w' = cwd w" and k: "map fst (fs w') = map fst (fs w)"
    and s: "map (\<lambda>e. snd e = Dir) (fs w') = map (\<lambda>e. snd e = Dir) (fs w)"
    by (auto simp: same_shape_def)
  have r: "resolve w' x = resolve w x" for x using c by (simp add: resolve_def)
  have l: "(lookup w' p = None \<longleftrightarrow> lookup w p = None) \<and> (lookup w' p = Some Dir \<longleftrightarrow> lookup w p = Some Dir)" for p
    using same_shape_map_of[OF k s, of p] by (simp add: lookup_def)
  have e: "dir_entries w' p = dir_entries w p" for p
    using same_shape_entries[OF k s, of p] by (simp add: dir_entries_def)
  have h: "has_metadata w' = has_metadata w"
  proof (rule ext)
    fix e :: "string \<times> bool"
    let ?q = "resolve w (filepath_Join [certsDir, fst e, ''metadata.json''])"
    from l[of ?q] show "has_metadata w' e = has_metadata w e"
      by (cases "lookup w ?q"; cases "lookup w' ?q") (simp_all add: has_metadata_def os_Stat_def r)
  qed
  show ?thesis
  proof (cases "lookup w (resolve w certsDir)")
    case None
    with l[of "resolve w certsDir"] show ?thesis
      by (auto simp: ListAll_def os_ReadDir_def r split: option.splits node.splits)
  next
    case (Some n)
    show ?thesis
    proof (cases n)
      case Dir
      with Some l[of "resolve w certsDir"] show ?thesis
        by (auto simp: ListAll_def os_ReadDir_def r e h split: option.splits node.splits)
    next
      case (File x y)
      with Some l[of "resolve w certsDir"] show ?thesis
        by (cases "lookup w' (resolve w certsDir)") (auto simp: ListAll_def os_ReadDir_def r split: option.splits node.splits)
    qed
  qed
qed

lemma request_provider_missing:
  assumes "strings_ToLower (validationFlag fl) = ''dns''" "dnsProviderFlag fl = []"
  shows "request_provider ev fl w =
           (Inl (Err ''--dns-provider is required for dns validation''),
            emit (UiError (Err ''--dns-provider is required for dns validation'')) w)"
  using assms by (simp add: request_provider_def request_vtype_def)

lemma requestCmd_dns_no_provider:
  assumes v: "strings_ToLower (validationFlag fl) = ''dns''" and p: "dnsProviderFlag fl = []"
      and d: "domainsFlag fl \<noteq> []"
  shows "\<exists>e. requestCmd ev fl w = (Some e, emit (UiError e) w) \<and>
           (AssertPermissions credentialsPath w = None \<and>
            isl (Resolve (serverURLFlag fl) (hmacIDFlag fl) (hmacKeyFlag fl)) = False \<longrightarrow>
              e = Err ''--dns-provider is required for dns validation'')"
proof (cases "AssertPermissions credentialsPath w")
  case (Some e)
  with d show ?thesis by (simp add: requestCmd_def fail_wrapped_def)
next
  case None
  show ?thesis
  proof (cases "Resolve (serverURLFlag fl) (hmacIDFlag fl) (hmacKeyFlag fl)")
    case (Inl e)
    with None d show ?thesis by (simp add: requestCmd_def fail_wrapped_def)
  next
    case (Inr c)
    with None d request_provider_missing[OF v p, of ev w] show ?thesis
      by (simp add: requestCmd_def)
  qed
qed

lemma fail_bare_frame:
  "fail_bare msg e w = (r, w') \<Longrightarrow> r = Some e \<and> trace w' = trace w @ [UiError (Wrap msg e)] \<and> clock w' = clock w \<and> fs w' = fs w \<and> cwd w' = cwd w"
  by (auto simp: fail_bare_def)

lemma fail_wrapped_frame:
  "fail_wrapped msg e w = (r, w') \<Longrightarrow> r = Some (Wrap msg e) \<and> trace w' = trace w @ [UiError (Wrap msg e)] \<and> clock w' = clock w \<and> fs w' = fs w \<and> cwd w' = cwd w"
  by (auto simp: fail_wrapped_def)

lemma MkdirAll_tc: "os_MkdirAll name perm w = (r, w') \<Longrightarrow> trace w' = trace w \<and> clock w' = clock w \<and> cwd w' = cwd w"
  by (auto simp: os_MkdirAll_def Let_def split: if_splits)

lemma WriteFile_tc: "os_WriteFile name data perm w = (r, w') \<Longrightarrow> trace w' = trace w \<and> clock w' = clock w \<and> cwd w' = cwd w"
  by (auto simp: os_WriteFile_def Let_def split: if_splits option.splits node.splits)

lemma SavePrivateKey_tc: "SavePrivateKey ev k name w = (r, w') \<Longrightarrow> trace w' = trace w \<and> clock w' = clock w \<and> cwd w' = cwd w"
  by (auto simp: SavePrivateKey_def split: prod.splits option.splits dest!: MkdirAll_tc WriteFile_tc)

lemma SaveCSR_tc: "SaveCSR csr name w = (r, w') \<Longrightarrow> trace w' = trace w \<and> clock w' = clock w \<and> cwd w' = cwd w"
  by (auto simp: SaveCSR_def split: prod.splits option.splits dest!: MkdirAll_tc WriteFile_tc)

lemma account_Store_tc: "account_Store ev a w = (r, w') \<Longrightarrow> trace w' = trace w \<and> clock w' = clock w \<and> cwd w' = cwd w"
  by (auto simp: account_Store_def split: if_splits prod.splits option.splits dest!: MkdirAll_tc WriteFile_tc)

lemma setup_keys_quiet: "quiet_or_one_error w (setup_keys ev fl w)"
proof -
  obtain r1 w1 where a: "os_MkdirAll (certDir fl) 448 w = (r1, w1)" by (cases "os_MkdirAll (certDir fl) 448 w")
  note fa = MkdirAll_tc[OF a]
  show ?thesis
  proof (cases r1)
    case (Some e)
    with a fa show ?thesis by (simp add: setup_keys_def quiet_or_one_error_def fail_bare_def)
  next
    case None
    note n1 = None
    show ?thesis
    proof (cases "rsa_GenerateKey ev")
      case None
      with a n1 fa show ?thesis by (simp add: setup_keys_def quiet_or_one_error_def fail_bare_def)
    next
      case (Some k)
      obtain r2 w2 where b: "SavePrivateKey ev k (certDir fl @ ''/privkey.pem'') w1 = (r2, w2)"
        by (cases "SavePrivateKey ev k (certDir fl @ ''/privkey.pem'') w1")
      note fb = SavePrivateKey_tc[OF b]
      show ?thesis
      proof (cases r2)
        case (Some e)
        with a n1 \<open>rsa_GenerateKey ev = Some k\<close> b fa fb show ?thesis
          by (simp add: setup_keys_def quiet_or_one_error_def fail_bare_def)
      next
        case None
        note n2 = None
        show ?thesis
        proof (cases "GenerateCSR ev k (request_domains fl)")
          case (Inl e)
          with a n1 \<open>rsa_GenerateKey ev = Some k\<close> b n2 fa fb show ?thesis
            by (simp add: setup_keys_def quiet_or_one_error_def fail_bare_def)
        next
          case (Inr csr)
          obtain r3 w3 where c: "SaveCSR csr (certDir fl @ ''/csr.pem'') w2 = (r3, w3)"
            by (cases "SaveCSR csr (certDir fl @ ''/csr.pem'') w2")
          note fc = SaveCSR_tc[OF c]
          with a n1 \<open>rsa_GenerateKey ev = Some k\<close> b n2 Inr c fa fb show ?thesis
            by (cases r3) (simp_all add: setup_keys_def quiet_or_one_error_def fail_bare_def)
        qed
      qed
    qed
  qed
qed

lemma setup_account_quiet: "quiet_or_one_error w (setup_account ev fl w)"
proof (cases "account_Exists (caName fl) w")
  case True
  then show ?thesis by (simp add: setup_account_def quiet_or_one_error_def)
next
  case False
  let ?em = "if emailFlag fl = [] then ''admin@'' @ hd (request_domains fl) else emailFlag fl"
  show ?thesis
  proof (cases "account_Create (caName fl) ?em w")
    case (Inl e)
    with False show ?thesis by (simp add: setup_account_def quiet_or_one_error_def fail_bare_def)
  next
    case (Inr acc)
    obtain r1 w1 where a: "account_Store ev acc w = (r1, w1)" by (cases "account_Store ev acc w")
    note fa = account_Store_tc[OF a]
    with False Inr a show ?thesis
      by (cases r1) (simp_all add: setup_account_def quiet_or_one_error_def fail_bare_def)
  qed
qed

lemma setup_challenge_dns:
  "strings_ToLower (validationFlag fl) = ''dns'' \<Longrightarrow> setup_challenge_dir fl w = (None, w)"
  by (simp add: setup_challenge_dir_def)

lemma requestCmd_keygen_dns_no_provider:
  assumes v: "strings_ToLower (validationFlag fl) = ''dns''" and p: "dnsProviderFlag fl = []"
      and d: "domainsFlag fl \<noteq> []"
  shows "\<exists>e x. fst (requestCmd_keygen ev fl w) = Some e \<and>
           trace (snd (requestCmd_keygen ev fl w)) = trace w @ [UiError x] \<and>
           clock (snd (requestCmd_keygen ev fl w)) = clock w"
proof -
  obtain r1 w1 where a: "setup_keys ev fl w = (r1, w1)" by (cases "setup_keys ev fl w")
  from setup_keys_quiet[of w ev fl] a
  have qa: "clock w1 = clock w" "r1 = None \<longrightarrow> trace w1 = trace w" "r1 \<noteq> None \<longrightarrow> (\<exists>x. trace w1 = trace w @ [UiError x])"
    by (simp_all add: quiet_or_one_error_def)
  show ?thesis
  proof (cases r1)
    case (Some e)
    with a qa d show ?thesis by (auto simp: requestCmd_keygen_def)
  next
    case None
    note n1 = None
    obtain r3 w3 where c: "setup_account ev fl w1 = (r3, w3)" by (cases "setup_account ev fl w1")
    from setup_account_quiet[of w1 ev fl] c
    have qc: "clock w3 = clock w1" "r3 = None \<longrightarrow> trace w3 = trace w1" "r3 \<noteq> None \<longrightarrow> (\<exists>x. trace w3 = trace w1 @ [UiError x])"
      by (simp_all add: quiet_or_one_error_def)
    show ?thesis
    proof (cases r3)
      case (Some e)
      with a n1 c qa qc d setup_challenge_dns[OF v, of w1] show ?thesis
        by (auto simp: requestCmd_keygen_def)
    next
      case None
      note n3 = None
      show ?thesis
      proof (cases "AssertPermissions credentialsPath w3")
        case (Some e)
        with a n1 c n3 qa qc d setup_challenge_dns[OF v, of w1] show ?thesis
          by (auto simp: requestCmd_keygen_def fail_wrapped_def)
      next
        case None
        note n4 = None
        show ?thesis
        proof (cases "Resolve (serverURLFlag fl) (hmacIDFlag fl) (hmacKeyFlag fl)")
          case (Inl e)
          with a n1 c n3 n4 qa qc d setup_challenge_dns[OF v, of w1] show ?thesis
            by (auto simp: requestCmd_keygen_def fail_wrapped_def)
        next
          case (Inr ca)
          with a n1 c n3 n4 qa qc d setup_challenge_dns[OF v, of w1]
            request_provider_missing[OF v p, of ev w3] show ?thesis
            by (auto simp: requestCmd_keygen_def)
        qed
      qed
    qed
  qed
qed












section \<open>Facts about the rewriting of configuration files\<close>

lemma is_ws_nl [simp]: "is_ws CHR 0x0A" "is_ws CHR '' ''"
  by (simp_all add: is_ws_def)

lemma not_ws_semi [simp]: "\<not> is_ws CHR '';''"
  by (simp add: is_ws_def)

lemma expand_plain: "CHR ''$'' \<notin> set t \<Longrightarrow> expand t m = t"
  by (induction t) auto

lemma match_ws: "is_ws w \<Longrightarrow> match_directive kw semi (w # s) = match_directive kw semi s"
  by (simp add: match_directive_def)

lemma match_ws_run: "\<forall>c \<in> set u. is_ws c \<Longrightarrow> match_directive kw semi (u @ s) = match_directive kw semi s"
  by (induction u) (auto simp: match_ws)

lemma first_word_ws: "is_ws w \<Longrightarrow> first_word (w # s) = first_word s"
  by (simp add: first_word_def)

lemma split_word: "s = takeWhile (\<lambda>c. \<not> is_ws c) s @ dropWhile (\<lambda>c. \<not> is_ws c) s"
  by simp

lemma tw_word: "\<forall>c \<in> set u. \<not> is_ws c \<Longrightarrow> v = [] \<or> is_ws (hd v) \<Longrightarrow>
  takeWhile (\<lambda>c. \<not> is_ws c) (u @ v) = u \<and> dropWhile (\<lambda>c. \<not> is_ws c) (u @ v) = v"
proof (induction u)
  case Nil
  then show ?case by (cases v) auto
next
  case (Cons a u)
  then show ?case by simp
qed

lemma dw_starts_ws: "dropWhile (\<lambda>c. \<not> is_ws c) s = [] \<or> is_ws (hd (dropWhile (\<lambda>c. \<not> is_ws c) s))"
  using hd_dropWhile[of "\<lambda>c. \<not> is_ws c" s] by auto

lemma dw_ws_starts: "dropWhile is_ws s = [] \<or> \<not> is_ws (hd (dropWhile is_ws s))"
  using hd_dropWhile[of is_ws s] by auto

lemma dw_same_len: "length (dropWhile P xs) = length xs \<Longrightarrow> dropWhile P xs = xs"
proof (cases xs)
  case Nil
  then show ?thesis by simp
next
  case (Cons x ys)
  assume "length (dropWhile P xs) = length xs"
  with Cons length_dropWhile_le[of P ys] show ?thesis by (auto split: if_splits)
qed

text \<open>characterisation of a successful match\<close>

lemma match_first_word:
  assumes k: "plain_word kw" and m: "match_directive kw semi s = Some rest"
  shows "first_word s = kw"
proof -
  let ?s1 = "dropWhile is_ws s"
  let ?s2 = "drop (length kw) ?s1"
  from m have hp: "take (length kw) ?s1 = kw" and ne: "length (dropWhile is_ws ?s2) \<noteq> length ?s2"
    by (auto simp: match_directive_def Let_def strings_HasPrefix_def split: if_splits)
  from ne have "?s2 \<noteq> []" by auto
  moreover from ne have "is_ws (hd ?s2)" by (cases ?s2) (auto split: if_splits)
  ultimately have st: "?s2 = [] \<or> is_ws (hd ?s2)" by simp
  have "?s1 = kw @ ?s2" using hp append_take_drop_id[of "length kw" ?s1] by simp
  then have "takeWhile (\<lambda>c. \<not> is_ws c) ?s1 = takeWhile (\<lambda>c. \<not> is_ws c) (kw @ ?s2)" by simp
  also have "\<dots> = kw" using tw_word[of kw ?s2] k st by (simp add: plain_word_def)
  finally show ?thesis by (simp add: first_word_def)
qed

lemma match_none_other: "plain_word kw \<Longrightarrow> first_word s \<noteq> kw \<Longrightarrow> match_directive kw semi s = None"
  using match_first_word by (cases "match_directive kw semi s") auto

lemma match_iff:
  assumes k: "plain_word kw"
  shows "(match_directive kw semi s \<noteq> None) \<longleftrightarrow>
         (first_word s = kw \<and> second_word s \<noteq> [] \<and> (semi \<longrightarrow> CHR '';'' \<in> set (tl (second_word s))))"
proof (cases "first_word s = kw")
  case False
  then show ?thesis using match_none_other[OF k] by simp
next
  case True
  let ?s1 = "dropWhile is_ws s"
  let ?s2 = "dropWhile (\<lambda>c. \<not> is_ws c) ?s1"
  let ?s3 = "dropWhile is_ws ?s2"
  have s1: "?s1 = kw @ ?s2" using True split_word[of ?s1] by (simp add: first_word_def)
  then have hp: "strings_HasPrefix ?s1 kw" by (metis append_eq_conv_conj strings_HasPrefix_def)
  have d: "drop (length kw) ?s1 = ?s2" using s1 by (metis append_eq_conv_conj)
  have t: "takeWhile (\<lambda>c. \<not> is_ws c) ?s3 = second_word s" by (simp add: second_word_def first_word_def)
  have len: "length ?s3 = length ?s2 \<Longrightarrow> second_word s = []"
  proof -
    assume "length ?s3 = length ?s2"
    then have "?s3 = ?s2" by (rule dw_same_len)
    with dw_starts_ws[of ?s1] dw_ws_starts[of ?s2] have e: "?s2 = []" by auto
    show "second_word s = []" unfolding second_word_def first_word_def e by simp
  qed
  show ?thesis using True hp d t len
    by (auto simp: match_directive_def Let_def)
qed


lemma plain_word_not_NL: "plain_word u \<Longrightarrow> CHR 0x0A \<notin> set u"
  by (auto simp: plain_word_def)

lemma directive_line_no_dollar: "plain_word kw \<Longrightarrow> plain_word P \<Longrightarrow> CHR ''$'' \<notin> set (directive_line kw semi P)"
  by (auto simp: plain_word_def directive_line_def)

lemma directive_line_no_NL: "plain_word kw \<Longrightarrow> plain_word P \<Longrightarrow> CHR 0x0A \<notin> set (directive_line kw semi P)"
  by (auto simp: plain_word_def directive_line_def)

lemma directive_line_Cons: "directive_line kw semi P = CHR '' '' # tl (directive_line kw semi P)"
  by (simp add: directive_line_def)

lemma dw_word: "plain_word kw \<Longrightarrow> dropWhile is_ws (kw @ x) = kw @ x"
  by (cases kw) (auto simp: plain_word_def)

lemma first_word_line: "plain_word kw \<Longrightarrow> first_word (directive_line kw semi P @ y) = kw"
proof -
  assume k: "plain_word kw"
  have "first_word (directive_line kw semi P @ y) = takeWhile (\<lambda>c. \<not> is_ws c) (kw @ (CHR '' '' # P @ (if semi then '';'' else []) @ y))"
    using k by (simp add: first_word_def directive_line_def dw_word)
  also have "\<dots> = kw" using tw_word[of kw "CHR '' '' # P @ (if semi then '';'' else []) @ y"] k
    by (simp add: plain_word_def)
  finally show ?thesis .
qed

text \<open>the three unfolding rules of the replacement\<close>

lemma rep_copy:
  "\<not> b \<or> match_directive kw semi (c # cs) = None \<Longrightarrow>
   replace_all kw semi r b (c # cs) = c # replace_all kw semi r (c = CHR 0x0A) cs"
  by auto

lemma rep_match:
  assumes "match_directive kw semi s = Some rest"
  shows "replace_all kw semi r True s =
         expand r (take (length s - length rest) s) @ replace_all kw semi r False rest"
proof (cases s)
  case Nil
  with match_shorter[OF assms] show ?thesis by simp
next
  case (Cons c cs)
  with assms show ?thesis by simp
qed

lemma rep_nonl: "CHR 0x0A \<notin> set u \<Longrightarrow>
  replace_all kw semi r False (u @ v) = u @ replace_all kw semi r False v"
  by (induction u) auto

lemma rep_takeWhile: "takeWhile (\<lambda>c. \<not> is_ws c) (replace_all kw semi r False s) = takeWhile (\<lambda>c. \<not> is_ws c) s"
proof (induction s)
  case Nil
  then show ?case by simp
next
  case (Cons c cs)
  show ?case
  proof (cases "is_ws c")
    case True
    then show ?thesis by simp
  next
    case False
    then have "c \<noteq> CHR 0x0A" by auto
    with False Cons show ?thesis by simp
  qed
qed

lemma rest_ok_rep: "rest_ok semi (replace_all kw semi2 r False s) = rest_ok semi s"
  by (simp add: rest_ok_def rep_takeWhile)

lemma rep_hd: "replace_all kw semi r False s = [] \<longleftrightarrow> s = []"
  "s \<noteq> [] \<Longrightarrow> hd (replace_all kw semi r False s) = hd s"
  by (cases s; simp)+


lemma rest_ok_starts: "rest_ok False y \<longleftrightarrow> (y = [] \<or> is_ws (hd y))"
  by (cases y) (auto simp: rest_ok_def)

lemma match_directive_line:
  assumes k: "plain_word kw" and p: "plain_word P" and c: "rest_ok semi y"
  shows "match_directive kw semi (directive_line kw semi P @ y) = Some y"
proof -
  let ?sc = "if semi then '';'' else []"
  let ?s = "directive_line kw semi P @ y"
  have s1: "dropWhile is_ws ?s = kw @ CHR '' '' # P @ ?sc @ y"
    using k by (simp add: directive_line_def dw_word)
  have hp: "strings_HasPrefix (dropWhile is_ws ?s) kw"
    unfolding s1 by (simp add: strings_HasPrefix_def)
  have s2: "drop (length kw) (dropWhile is_ws ?s) = CHR '' '' # P @ ?sc @ y"
    unfolding s1 by simp
  have s3: "dropWhile is_ws (CHR '' '' # P @ ?sc @ y) = P @ ?sc @ y"
    using p by (simp add: dw_word)
  have pn: "\<forall>c \<in> set P. \<not> is_ws c" and pne: "P \<noteq> []" using p by (auto simp: plain_word_def)
  show ?thesis
  proof (cases semi)
    case False
    with c have y: "y = [] \<or> is_ws (hd y)" by (simp add: rest_ok_starts)
    from tw_word[OF pn y] hp s2 s3 False pne show ?thesis
      by (simp add: match_directive_def Let_def)
  next
    case True
    let ?a = "takeWhile (\<lambda>c. \<not> is_ws c) y"
    from True c have na: "CHR '';'' \<notin> set ?a" by (simp add: rest_ok_def)
    have pn': "\<And>c. c \<in> set (P @ '';'') \<Longrightarrow> \<not> is_ws c" using pn by auto
    have t: "takeWhile (\<lambda>c. \<not> is_ws c) ((P @ '';'') @ y) = (P @ '';'') @ ?a"
      using pn' by (rule takeWhile_append2)
    have r: "dropWhile (\<lambda>c. \<not> is_ws c) ((P @ '';'') @ y) = dropWhile (\<lambda>c. \<not> is_ws c) y"
      using pn' by (rule dropWhile_append2)
    have tl: "CHR '';'' \<in> set (tl ((P @ '';'') @ ?a))" using pne by (cases P) auto
    have "takeWhile (\<lambda>c. c \<noteq> CHR '';'') (rev ?a @ CHR '';'' # rev P) = rev ?a"
      using na by (auto simp: takeWhile_tail)
    then have bk: "rev (takeWhile (\<lambda>c. c \<noteq> CHR '';'') (rev ((P @ '';'') @ ?a))) = ?a"
      by simp
    have "match_directive kw True (directive_line kw True P @ y) =
          Some (rev (takeWhile (\<lambda>c. c \<noteq> CHR '';'') (rev ((P @ '';'') @ ?a))) @ dropWhile (\<lambda>c. \<not> is_ws c) y)"
      using hp s2 s3 True t r tl
      by (simp add: match_directive_def Let_def del: rev_append)
    with bk True show ?thesis by simp
  qed
qed

lemma match_rest_ok:
  assumes m: "match_directive kw semi s = Some rest"
  shows "rest_ok semi rest"
proof -
  let ?s3 = "dropWhile is_ws (drop (length kw) (dropWhile is_ws s))"
  let ?t = "takeWhile (\<lambda>c. \<not> is_ws c) ?s3"
  let ?r = "dropWhile (\<lambda>c. \<not> is_ws c) ?s3"
  let ?a = "rev (takeWhile (\<lambda>c. c \<noteq> CHR '';'') (rev ?t))"
  have r: "?r = [] \<or> is_ws (hd ?r)" by (rule dw_starts_ws)
  show ?thesis
  proof (cases semi)
    case False
    with m have "rest = ?r" by (auto simp: match_directive_def Let_def split: if_splits)
    with r False show ?thesis by (simp add: rest_ok_starts)
  next
    case True
    with m have rest: "rest = ?a @ ?r" by (auto simp: match_directive_def Let_def split: if_splits)
    have "set ?a \<subseteq> set ?t" using set_takeWhileD[of _ "\<lambda>c. c \<noteq> CHR '';''" "rev ?t"] by auto
    then have an: "\<forall>c \<in> set ?a. \<not> is_ws c" using set_takeWhileD[of _ "\<lambda>c. \<not> is_ws c" ?s3] by blast
    have "CHR '';'' \<notin> set ?a" using set_takeWhileD[of "CHR '';''" "\<lambda>c. c \<noteq> CHR '';''" "rev ?t"] by auto
    with tw_word[OF an r] rest True show ?thesis by (simp add: rest_ok_def)
  qed
qed

lemma match_suffix:
  assumes m: "match_directive kw semi s = Some rest"
  shows "\<exists>u. s = u @ rest"
proof -
  let ?s1 = "dropWhile is_ws s"
  let ?s2 = "drop (length kw) ?s1"
  let ?s3 = "dropWhile is_ws ?s2"
  let ?t = "takeWhile (\<lambda>c. \<not> is_ws c) ?s3"
  let ?r = "dropWhile (\<lambda>c. \<not> is_ws c) ?s3"
  let ?a = "rev (takeWhile (\<lambda>c. c \<noteq> CHR '';'') (rev ?t))"
  let ?b = "rev (dropWhile (\<lambda>c. c \<noteq> CHR '';'') (rev ?t))"
  have 1: "s = takeWhile is_ws s @ ?s1" by simp
  have 2: "?s1 = take (length kw) ?s1 @ ?s2" by simp
  have 3: "?s2 = takeWhile is_ws ?s2 @ ?s3" by simp
  have 4: "?s3 = ?t @ ?r" by simp
  have "rev ?t = takeWhile (\<lambda>c. c \<noteq> CHR '';'') (rev ?t) @ dropWhile (\<lambda>c. c \<noteq> CHR '';'') (rev ?t)" by simp
  then have "rev (rev ?t) = rev (takeWhile (\<lambda>c. c \<noteq> CHR '';'') (rev ?t) @ dropWhile (\<lambda>c. c \<noteq> CHR '';'') (rev ?t))"
    by (rule arg_cong)
  then have 5: "?t = ?b @ ?a" by (simp del: takeWhile_dropWhile_id)
  have s3r: "\<exists>u. s = u @ ?s3" using 1 2 3 by (metis append.assoc)
  then have sr: "\<exists>u. s = u @ ?r" using 4 by (metis append.assoc)
  from s3r 4 5 have sa: "\<exists>u. s = u @ ?a @ ?r" by (metis append.assoc)
  from m have "rest = ?a @ ?r \<or> rest = ?r"
    by (auto simp: match_directive_def Let_def split: if_splits)
  with sr sa show ?thesis by auto
qed


lemma rep_match_line:
  assumes "plain_word kw" "plain_word P" "match_directive kw semi s = Some rest"
  shows "rep kw semi P True s = directive_line kw semi P @ rep kw semi P False rest"
  using rep_match[OF assms(3)] directive_line_no_dollar[OF assms(1,2)] by (simp add: expand_plain)

lemma first_word_rep:
  assumes k: "plain_word kw" and p: "plain_word P"
  shows "first_word (rep kw semi P b s) = first_word s"
proof (induction s arbitrary: b)
  case Nil
  then show ?case by simp
next
  case (Cons c cs)
  show ?case
  proof (cases "b \<and> match_directive kw semi (c # cs) \<noteq> None")
    case True
    then obtain rest where m: "match_directive kw semi (c # cs) = Some rest" and b: b by auto
    from rep_match_line[OF k p m] b first_word_line[OF k] match_first_word[OF k m] show ?thesis by simp
  next
    case False
    then have cp: "rep kw semi P b (c # cs) = c # rep kw semi P (c = CHR 0x0A) cs"
      by (intro rep_copy) auto
    show ?thesis
    proof (cases "is_ws c")
      case True
      with cp Cons.IH show ?thesis by (simp add: first_word_ws)
    next
      case nw: False
      then have "c \<noteq> CHR 0x0A" by auto
      with cp nw show ?thesis by (simp add: first_word_def rep_takeWhile)
    qed
  qed
qed

lemma rep_copy_ws:
  "\<forall>c \<in> set u. is_ws c \<Longrightarrow> match_directive kw semi y = None \<Longrightarrow>
   \<exists>b'. replace_all kw semi r b (u @ y) = u @ replace_all kw semi r b' y"
proof (induction u arbitrary: b)
  case Nil
  then show ?case by auto
next
  case (Cons c u)
  then have "match_directive kw semi (c # u @ y) = None"
    using match_ws_run[of "c # u" kw semi y] by simp
  then have "replace_all kw semi r b ((c # u) @ y) = c # replace_all kw semi r (c = CHR 0x0A) (u @ y)"
    by (simp add: rep_copy)
  with Cons.IH[of "c = CHR 0x0A"] Cons.prems show ?case by auto
qed

lemma rep_copy_word:
  assumes "v \<noteq> []" "\<forall>c \<in> set v. \<not> is_ws c" "match_directive kw semi (v @ y) = None"
  shows "replace_all kw semi r b (v @ y) = v @ replace_all kw semi r False y"
proof -
  from assms(1) obtain c v' where v: "v = c # v'" by (cases v) auto
  with assms(2) have c: "c \<noteq> CHR 0x0A" and n: "CHR 0x0A \<notin> set v'" by auto
  from assms(3) v have "replace_all kw semi r b (v @ y) = c # replace_all kw semi r (c = CHR 0x0A) (v' @ y)"
    by (simp add: rep_copy)
  with c rep_nonl[OF n] v show ?thesis by simp
qed

lemma rep_starts_ws:
  "y = [] \<or> is_ws (hd y) \<Longrightarrow>
   replace_all kw semi r False y = [] \<or> is_ws (hd (replace_all kw semi r False y))"
  by (cases y) auto

lemma dw_run: "\<forall>c \<in> set u. is_ws c \<Longrightarrow> dropWhile is_ws (u @ x) = dropWhile is_ws x"
  by (induction u) auto

lemma second_word_rep:
  assumes k: "plain_word kw" and p: "plain_word P" and m: "match_directive kw semi s = None"
  shows "second_word (rep kw semi P b s) = second_word s"
proof -
  let ?u = "takeWhile is_ws s"
  let ?s1 = "dropWhile is_ws s"
  let ?v = "takeWhile (\<lambda>c. \<not> is_ws c) ?s1"
  let ?y = "dropWhile (\<lambda>c. \<not> is_ws c) ?s1"
  have u: "\<forall>c \<in> set ?u. is_ws c" using set_takeWhileD[of _ is_ws s] by blast
  have vn: "\<forall>c \<in> set ?v. \<not> is_ws c" using set_takeWhileD[of _ "\<lambda>c. \<not> is_ws c" ?s1] by blast
  have s: "s = ?u @ ?s1" by simp
  have s1: "?s1 = ?v @ ?y" by simp
  have m1: "match_directive kw semi ?s1 = None" using m match_ws_run[OF u, of kw semi ?s1] by simp
  from rep_copy_ws[OF u m1, of "directive_line kw semi P" b] obtain b' where
    1: "rep kw semi P b s = ?u @ rep kw semi P b' ?s1" by auto
  show ?thesis
  proof (cases "?v = []")
    case True
    with dw_ws_starts[of s] have e: "?s1 = []" by (cases ?s1) (auto split: if_splits)
    with 1 s have "rep kw semi P b s = s" by simp
    then show ?thesis by simp
  next
    case False
    have y: "?y = [] \<or> is_ws (hd ?y)" by (rule dw_starts_ws)
    let ?y' = "rep kw semi P False ?y"
    from y have y': "?y' = [] \<or> is_ws (hd ?y')" by (rule rep_starts_ws)
    have m2: "match_directive kw semi (?v @ ?y) = None" using m1 by simp
    have "rep kw semi P b' (?v @ ?y) = ?v @ ?y'" by (rule rep_copy_word[OF False vn m2])
    then have "rep kw semi P b' ?s1 = ?v @ ?y'" by simp
    with 1 have 2: "rep kw semi P b s = ?u @ ?v @ ?y'" by (simp only:)
    from False obtain c v' where v: "?v = c # v'" by (cases ?v) auto
    with vn have cn: "\<not> is_ws c" by (metis list.set_intros(1))
    have "dropWhile is_ws (?u @ ?v @ ?y') = dropWhile is_ws (?v @ ?y')"
      using u by (rule dw_run)
    also have "\<dots> = ?v @ ?y'" unfolding v using cn by simp
    finally have 3: "dropWhile is_ws (rep kw semi P b s) = ?v @ ?y'" unfolding 2 .
    have 4: "dropWhile (\<lambda>c. \<not> is_ws c) (?v @ ?y') = ?y'" using tw_word[OF vn y'] by blast
    have "second_word (rep kw semi P b s) = first_word ?y'" unfolding second_word_def 3 4 ..
    also have "\<dots> = first_word ?y" by (rule first_word_rep[OF k p])
    finally show ?thesis unfolding second_word_def .
  qed
qed

lemma match_preserved:
  assumes k: "plain_word kw" and k': "plain_word kw'" and p': "plain_word P'"
    and m': "match_directive kw' semi' s = None" and m: "match_directive kw semi s = None"
  shows "match_directive kw semi (rep kw' semi' P' b s) = None"
proof -
  have 1: "first_word (rep kw' semi' P' b s) = first_word s" by (rule first_word_rep[OF k' p'])
  have 2: "second_word (rep kw' semi' P' b s) = second_word s" by (rule second_word_rep[OF k' p' m'])
  from m match_iff[OF k, of semi s]
  have "\<not> (first_word s = kw \<and> second_word s \<noteq> [] \<and> (semi \<longrightarrow> CHR '';'' \<in> set (tl (second_word s))))" by simp
  with match_iff[OF k, of semi "rep kw' semi' P' b s"] show ?thesis unfolding 1 2 by blast
qed

lemma match_preserved_other:
  assumes k: "plain_word kw" and k': "plain_word kw'" and p': "plain_word P'" and ne: "kw \<noteq> kw'"
    and m: "match_directive kw semi s = None"
  shows "match_directive kw semi (rep kw' semi' P' b s) = None"
proof (cases "match_directive kw' semi' s")
  case None
  then show ?thesis using m by (intro match_preserved[OF k k' p'])
next
  case (Some rest)
  have "first_word (rep kw' semi' P' b s) = first_word s" by (rule first_word_rep[OF k' p'])
  with match_first_word[OF k' Some] ne show ?thesis by (intro match_none_other[OF k]) simp
qed


lemma rep_copy_run:
  assumes "u \<noteq> []" "CHR 0x0A \<notin> set u" "\<not> b \<or> match_directive kw semi (u @ v) = None"
  shows "replace_all kw semi r b (u @ v) = u @ replace_all kw semi r False v"
proof -
  from assms(1) obtain c u' where u: "u = c # u'" by (cases u) auto
  with assms(2) have c: "c \<noteq> CHR 0x0A" and n: "CHR 0x0A \<notin> set u'" by auto
  from assms(3) u have "replace_all kw semi r b (u @ v) = c # replace_all kw semi r (c = CHR 0x0A) (u' @ v)"
    by (simp add: rep_copy)
  with c rep_nonl[OF n] u show ?thesis by simp
qed

lemma directive_line_nonempty: "directive_line kw semi P \<noteq> []"
  by (simp add: directive_line_def)

lemma settled_rep:
  assumes k: "plain_word kw" and p: "plain_word P"
  shows "settled kw semi P b (rep kw semi P b s)"
proof (induction "length s" arbitrary: s b rule: less_induct)
  case less
  show ?case
  proof (cases s)
    case Nil
    then show ?thesis by (simp add: settled_Nil)
  next
    case (Cons c cs)
    show ?thesis
    proof (cases "b \<and> match_directive kw semi s \<noteq> None")
      case True
      then obtain rest where m: "match_directive kw semi s = Some rest" and b: b by auto
      have 1: "rep kw semi P True s = directive_line kw semi P @ rep kw semi P False rest"
        by (rule rep_match_line[OF k p m])
      have "settled kw semi P False (rep kw semi P False rest)"
        using match_shorter[OF m] by (rule less)
      moreover have "rest_ok semi (rep kw semi P False rest)"
        using match_rest_ok[OF m] by (simp add: rest_ok_rep)
      ultimately show ?thesis using b 1 by (simp add: settled_line)
    next
      case False
      then have nm: "\<not> b \<or> match_directive kw semi (c # cs) = None" using Cons by auto
      then have 1: "rep kw semi P b s = c # rep kw semi P (c = CHR 0x0A) cs"
        unfolding Cons by (rule rep_copy)
      have 2: "settled kw semi P (c = CHR 0x0A) (rep kw semi P (c = CHR 0x0A) cs)"
        using Cons by (intro less) simp
      have 3: "\<not> b \<or> match_directive kw semi (c # rep kw semi P (c = CHR 0x0A) cs) = None"
      proof (cases b)
        case True
        with nm Cons have "match_directive kw semi s = None" by simp
        then have "match_directive kw semi (rep kw semi P b s) = None"
          by (intro match_preserved[OF k k p])
        with 1 show ?thesis by simp
      qed simp
      show ?thesis unfolding 1 using 3 2 by (rule settled_copy)
    qed
  qed
qed

lemma rep_settled:
  assumes k: "plain_word kw" and p: "plain_word P"
  shows "settled kw semi P b s \<Longrightarrow> rep kw semi P b s = s"
proof (induction rule: settled.induct)
  case (settled_Nil b)
  then show ?case by simp
next
  case (settled_copy b c cs)
  then show ?case by (simp add: rep_copy)
next
  case (settled_line rest)
  have "match_directive kw semi (directive_line kw semi P @ rest) = Some rest"
    using k p settled_line.hyps(1) by (rule match_directive_line)
  from rep_match_line[OF k p this] settled_line.IH show ?case by simp
qed

lemma settled_prepend:
  "CHR 0x0A \<notin> set x \<Longrightarrow> settled kw semi P False y \<Longrightarrow> settled kw semi P False (x @ y)"
proof (induction x)
  case Nil
  then show ?case by simp
next
  case (Cons c x)
  then have "settled kw semi P (c = CHR 0x0A) (x @ y)" by auto
  then show ?case by (simp add: settled_copy)
qed

lemma settled_suffix:
  assumes k: "plain_word kw" and p: "plain_word P"
  shows "settled kw semi P b s \<Longrightarrow> s = u @ v \<Longrightarrow> settled kw semi P False v"
proof (induction arbitrary: u rule: settled.induct)
  case (settled_Nil b)
  then show ?case by (simp add: settled.settled_Nil)
next
  case (settled_copy b c cs)
  show ?case
  proof (cases u)
    case Nil
    with settled_copy.prems have "v = c # cs" by simp
    with settled_copy.hyps(2) show ?thesis by (simp add: settled.settled_copy)
  next
    case (Cons a u')
    with settled_copy.prems have "cs = u' @ v" by simp
    then show ?thesis by (rule settled_copy.IH)
  qed
next
  case (settled_line rest)
  from settled_line.prems obtain w where
    "(directive_line kw semi P = u @ w \<and> v = w @ rest) \<or> (directive_line kw semi P @ w = u \<and> rest = w @ v)"
    by (auto simp: append_eq_append_conv2)
  then show ?case
  proof
    assume a: "directive_line kw semi P = u @ w \<and> v = w @ rest"
    with directive_line_no_NL[OF k p, of semi] have "CHR 0x0A \<notin> set w" by (metis Un_iff set_append)
    with settled_line.hyps(2) a show ?thesis by (simp add: settled_prepend)
  next
    assume "directive_line kw semi P @ w = u \<and> rest = w @ v"
    then have "rest = w @ v" by simp
    then show ?thesis by (rule settled_line.IH)
  qed
qed

lemma settled_other:
  assumes k: "plain_word kw" and p: "plain_word P" and k': "plain_word kw'" and p': "plain_word P'"
    and ne: "kw \<noteq> kw'"
  shows "settled kw semi P b s \<Longrightarrow> settled kw semi P b (rep kw' semi' P' b s)"
proof (induction "length s" arbitrary: s b rule: less_induct)
  case less
  note st = less.prems
  show ?case
  proof (cases "b \<and> match_directive kw' semi' s \<noteq> None")
    case True
    then obtain rest where m: "match_directive kw' semi' s = Some rest" and b: b by auto
    have 1: "rep kw' semi' P' True s = directive_line kw' semi' P' @ rep kw' semi' P' False rest"
      by (rule rep_match_line[OF k' p' m])
    from match_suffix[OF m] obtain u where "s = u @ rest" by auto
    with st have "settled kw semi P False rest" by (rule settled_suffix[OF k p])
    with match_shorter[OF m] have 2: "settled kw semi P False (rep kw' semi' P' False rest)"
      by (rule less.hyps)
    let ?x = "rep kw' semi' P' False rest"
    have "first_word (directive_line kw' semi' P' @ ?x) \<noteq> kw" using first_word_line[OF k'] ne by simp
    then have 3: "match_directive kw semi (directive_line kw' semi' P' @ ?x) = None" by (intro match_none_other[OF k])
    have "CHR 0x0A \<notin> set (tl (directive_line kw' semi' P'))"
      using directive_line_no_NL[OF k' p', of semi'] by (simp add: directive_line_def)
    then have "settled kw semi P False (tl (directive_line kw' semi' P') @ ?x)" using 2 by (rule settled_prepend)
    then have "settled kw semi P (CHR '' '' = CHR 0x0A) (tl (directive_line kw' semi' P') @ ?x)" by simp
    moreover have lc: "directive_line kw' semi' P' @ ?x = CHR '' '' # tl (directive_line kw' semi' P') @ ?x"
      by (simp add: directive_line_def)
    moreover from 3 have "\<not> True \<or> match_directive kw semi (CHR '' '' # tl (directive_line kw' semi' P') @ ?x) = None"
      unfolding lc by simp
    ultimately have "settled kw semi P True (directive_line kw' semi' P' @ ?x)"
      by (simp only: settled_copy)
    with b 1 show ?thesis by simp
  next
    case False
    from st show ?thesis
    proof (cases rule: settled.cases)
      case settled_Nil
      then show ?thesis by (simp add: settled.settled_Nil)
    next
      case (settled_copy c cs)
      from False settled_copy have nm: "\<not> b \<or> match_directive kw' semi' (c # cs) = None" by auto
      then have 1: "rep kw' semi' P' b s = c # rep kw' semi' P' (c = CHR 0x0A) cs"
        unfolding settled_copy(1) by (rule rep_copy)
      have 2: "settled kw semi P (c = CHR 0x0A) (rep kw' semi' P' (c = CHR 0x0A) cs)"
        using settled_copy by (intro less.hyps) simp_all
      have 3: "\<not> b \<or> match_directive kw semi (c # rep kw' semi' P' (c = CHR 0x0A) cs) = None"
      proof (cases b)
        case True
        with settled_copy have "match_directive kw semi s = None" by simp
        then have "match_directive kw semi (rep kw' semi' P' b s) = None"
          by (intro match_preserved_other[OF k k' p' ne])
        with 1 show ?thesis by simp
      qed simp
      show ?thesis unfolding 1 using 3 2 by (rule settled.settled_copy)
    next
      case (settled_line rest)
      from False settled_line have nm: "\<not> b \<or> match_directive kw' semi' (directive_line kw semi P @ rest) = None" by auto
      have 1: "rep kw' semi' P' b (directive_line kw semi P @ rest) = directive_line kw semi P @ rep kw' semi' P' False rest"
        using directive_line_nonempty directive_line_no_NL[OF k p] nm by (rule rep_copy_run)
      have "length rest < length s" using settled_line by (simp add: directive_line_def)
      then have 2: "settled kw semi P False (rep kw' semi' P' False rest)"
        using settled_line by (intro less.hyps)
      have 3: "rest_ok semi (rep kw' semi' P' False rest)" using settled_line by (simp add: rest_ok_rep)
      from 3 2 have "settled kw semi P True (directive_line kw semi P @ rep kw' semi' P' False rest)"
        by (rule settled.settled_line)
      with 1 settled_line show ?thesis by simp
    qed
  qed
qed

lemma rep_rep_twice:
  assumes k: "plain_word kw" and p: "plain_word P" and k': "plain_word kw'" and p': "plain_word P'"
    and ne: "kw \<noteq> kw'"
  shows "rep kw' semi' P' True (rep kw semi P True (rep kw' semi' P' True (rep kw semi P True s)))
         = rep kw' semi' P' True (rep kw semi P True s)"
proof -
  let ?x = "rep kw semi P True s"
  let ?y = "rep kw' semi' P' True ?x"
  have "settled kw semi P True ?x" by (rule settled_rep[OF k p])
  then have "settled kw semi P True ?y" by (rule settled_other[OF k p k' p' ne])
  then have 1: "rep kw semi P True ?y = ?y" by (rule rep_settled[OF k p])
  have "settled kw' semi' P' True ?y" by (rule settled_rep[OF k' p'])
  then have 2: "rep kw' semi' P' True ?y = ?y" by (rule rep_settled[OF k' p'])
  show ?thesis unfolding 1 2 ..
qed

text \<open>the update path on the file system\<close>

lemma plain_keywords:
  "plain_word ''ssl_certificate''" "plain_word ''ssl_certificate_key''"
  "plain_word ''SSLCertificateFile''" "plain_word ''SSLCertificateKeyFile''"
  by (simp_all add: plain_word_def is_ws_def)

lemma updateNginxSSL_rep:
  "updateNginxSSL s c k d =
   rep ''ssl_certificate_key'' True k True (rep ''ssl_certificate'' True c True s)"
  by (simp add: updateNginxSSL_def directive_line_def)

lemma updateApacheSSL_rep:
  "updateApacheSSL s c k d =
   rep ''SSLCertificateKeyFile'' False k True (rep ''SSLCertificateFile'' False c True s)"
  by (simp add: updateApacheSSL_def directive_line_def)

lemma updateNginxSSL_twice:
  assumes "plain_word c" and "plain_word k"
  shows "updateNginxSSL (updateNginxSSL s c k d) c k d = updateNginxSSL s c k d"
  unfolding updateNginxSSL_rep
  by (rule rep_rep_twice[OF plain_keywords(1) assms(1) plain_keywords(2) assms(2)]) simp

lemma updateApacheSSL_twice:
  assumes "plain_word c" and "plain_word k"
  shows "updateApacheSSL (updateApacheSSL s c k d) c k d = updateApacheSSL s c k d"
  unfolding updateApacheSSL_rep
  by (rule rep_rep_twice[OF plain_keywords(3) assms(1) plain_keywords(4) assms(2)]) simp

lemma WriteFile_cwd: "os_WriteFile name data perm w = (r, w') \<Longrightarrow> cwd w' = cwd w"
  by (auto simp: os_WriteFile_def Let_def split: if_splits option.splits node.splits)

lemma copyFile_cwd: "copyFile src dst w = (r, w') \<Longrightarrow> cwd w' = cwd w"
  by (auto simp: copyFile_def split: sum.splits prod.splits option.splits dest!: WriteFile_cwd)

lemma Rename_file:
  assumes "os_Rename old new w = (None, w')" and "lookup w (resolve w old) = Some (File d m)"
  shows "lookup w' (resolve w new) = Some (File d m)" and "cwd w' = cwd w" and "new \<noteq> []"
  using assms
  by (auto simp: os_Rename_def Let_def lookup_def update_conv'
      split: if_splits option.splits node.splits)

lemma backupAndWriteFile_written:
  assumes "backupAndWriteFile f data w = (None, w')"
  shows "os_ReadFile f w' = Inr data"
proof -
  let ?bak = "f @ ''.bak.'' @ itoa (clock w)"
  let ?tmp = "f @ ''.tmp''"
  from assms obtain wa where c: "copyFile f ?bak w = (None, wa)"
    by (auto simp: backupAndWriteFile_def Let_def split: prod.splits option.splits)
  with assms obtain wb where wr: "os_WriteFile ?tmp data 420 wa = (None, wb)"
    and rn: "os_Rename ?tmp f wb = (None, w')"
    by (auto simp: backupAndWriteFile_def Let_def split: prod.splits option.splits)
  from WriteFile_lookup(1)[OF wr, of "resolve wa ?tmp"] obtain m where
    l: "lookup wb (resolve wa ?tmp) = Some (File data m)" by auto
  have cw: "cwd wb = cwd wa" by (rule WriteFile_lookup(2)[OF wr])
  from l cw have "lookup wb (resolve wb ?tmp) = Some (File data m)"
    by (simp add: resolve_cwd[OF cw])
  from Rename_file[OF rn this] have "lookup w' (resolve w' f) = Some (File data m)" and "f \<noteq> []"
    by (simp_all add: resolve_cwd[of w' wb])
  then show ?thesis by (auto simp: ReadFile_lookup)
qed

lemma installNginxFile_updates:
  assumes rd: "os_ReadFile f w = Inr s"
    and g: "strings_Contains s ''listen 80''" "strings_Contains s d" "strings_Contains s ''listen 443''"
    and run: "installNginxFile d c k f w = (None, w1)"
  shows "os_ReadFile f w1 = Inr (updateNginxSSL s c k d)"
proof (cases "updateNginxSSL s c k d = s")
  case True
  with run rd g show ?thesis by (simp add: installNginxFile_def)
next
  case False
  with run rd g have "backupAndWriteFile f (updateNginxSSL s c k d) w = (None, w1)"
    by (simp add: installNginxFile_def)
  then show ?thesis by (rule backupAndWriteFile_written)
qed

lemma installNginxFile_settled:
  assumes pc: "plain_word c" and pk: "plain_word k"
    and rd: "os_ReadFile f v = Inr (updateNginxSSL s c k d)"
    and g: "strings_Contains (updateNginxSSL s c k d) ''listen 443'' \<or>
            \<not> (strings_Contains (updateNginxSSL s c k d) ''listen 80'' \<and>
               strings_Contains (updateNginxSSL s c k d) d)"
  shows "installNginxFile d c k f v = (None, v)"
  using rd g by (auto simp: installNginxFile_def updateNginxSSL_twice[OF pc pk])

lemma installApacheFile_updates:
  assumes rd: "os_ReadFile f w = Inr s"
    and g: "strings_Contains s ''<VirtualHost''" "strings_Contains s '':80''"
      "strings_Contains s (''ServerName '' @ d) \<or> strings_Contains s (''ServerAlias '' @ d)"
      "strings_Contains s '':443''"
    and run: "installApacheFile d c k f w = (None, w1)"
  shows "os_ReadFile f w1 = Inr (updateApacheSSL s c k d)"
proof (cases "updateApacheSSL s c k d = s")
  case True
  with run rd g show ?thesis by (simp add: installApacheFile_def)
next
  case False
  with run rd g have "backupAndWriteFile f (updateApacheSSL s c k d) w = (None, w1)"
    by (simp add: installApacheFile_def)
  then show ?thesis by (rule backupAndWriteFile_written)
qed

lemma installApacheFile_settled:
  assumes pc: "plain_word c" and pk: "plain_word k"
    and rd: "os_ReadFile f v = Inr (updateApacheSSL s c k d)"
    and g: "strings_Contains (updateApacheSSL s c k d) '':443'' \<or>
            \<not> ((strings_Contains (updateApacheSSL s c k d) ''<VirtualHost'' \<and>
                strings_Contains (updateApacheSSL s c k d) '':80'') \<and>
               (strings_Contains (updateApacheSSL s c k d) (''ServerName '' @ d) \<or>
                strings_Contains (updateApacheSSL s c k d) (''ServerAlias '' @ d)))"
  shows "installApacheFile d c k f v = (None, v)"
  using rd g by (auto simp: installApacheFile_def updateApacheSSL_twice[OF pc pk])

lemma install_loop_idle:
  "\<forall>g \<in> set files. body g v = (None, v) \<Longrightarrow> install_loop body files v = (None, v)"
  by (induction files) auto

section \<open>Facts about the trace and the stored record\<close>














section \<open>Facts about the web-root flag and the writes of HTTP validation\<close>








section \<open>The claims\<close>

subsection \<open>C1: the renewal counter and timestamp\<close>




subsection \<open>C2: enterprise certificates in the renew flow\<close>

text \<open>
  C2 (as amended). For every stored record whose \<open>ServerURL\<close> is not empty the renew
  flow fails that domain no later than the CA-resolution step and changes nothing:
  \<open>renewDomain\<close> passes the stored \<open>HMACIDCred\<close> and an empty HMAC key to \<open>Resolve\<close>, which
  rejects them; so when the credentials check on the stored \<open>CredentialsPath\<close> passes
  the domain fails at CA resolution with the missing-credentials error, and otherwise
  it fails already at the credentials check. Either way an enterprise certificate is
  never renewed.
\<close>

theorem renewDomain_enterprise_never_renews:
  assumes "Load ev d w = Inr meta" and "ServerURL meta \<noteq> []"
  shows "Resolve (ServerURL meta) (HMACIDCred meta) []
           = Inl (Err ''hmac-id and hmac-key are required for enterprise CA'') \<and>
         renewDomain ev d w =
           (case AssertPermissions (CredentialsPath meta) w of
              Some e \<Rightarrow> (Some (Wrap ''credentials check failed'' e), w)
            | None \<Rightarrow>
                (Some (Wrap ''CA resolution failed''
                   (Err ''hmac-id and hmac-key are required for enterprise CA'')), w))"
  using assms by (simp add: renewDomain_def Resolve_no_key split: option.splits)

theorem renewDomain_enterprise_never_renews_witness:
  "Load demo_env ''c.example'' ent_world
     = Inr (meta_for ''c.example'' ''http'' ''https://ca.corp.example'') \<and>
   ServerURL (meta_for ''c.example'' ''http'' ''https://ca.corp.example'') \<noteq> [] \<and>
   AssertPermissions credentialsPath ent_world = None \<and>
   renewDomain demo_env ''c.example'' ent_world
     = (Some (Wrap ''CA resolution failed''
          (Err ''hmac-id and hmac-key are required for enterprise CA'')), ent_world)"
proof -
  let ?m = "meta_for ''c.example'' ''http'' ''https://ca.corp.example''"
  have l: "Load demo_env ''c.example'' ent_world = Inr ?m" by code_simp
  have u: "ServerURL ?m \<noteq> []" by code_simp
  have c: "CredentialsPath ?m = credentialsPath" by (simp add: meta_for_def)
  have a: "AssertPermissions credentialsPath ent_world = None" by code_simp
  from renewDomain_enterprise_never_renews[OF l u] c a
  have "renewDomain demo_env ''c.example'' ent_world
     = (Some (Wrap ''CA resolution failed''
          (Err ''hmac-id and hmac-key are required for enterprise CA'')), ent_world)" by simp
  with l u a show ?thesis by blast
qed

text \<open>
  Counterexample to C2 as stated: with a credential file readable by group and others
  the stored enterprise record fails at the credentials check, before CA resolution.
\<close>

theorem renewDomain_enterprise_fails_before_resolution:
  "Load demo_env ''c.example'' ent_world_insecure
     = Inr (meta_for ''c.example'' ''http'' ''https://ca.corp.example'') \<and>
   ServerURL (meta_for ''c.example'' ''http'' ''https://ca.corp.example'') = ''https://ca.corp.example'' \<and>
   fst (renewDomain demo_env ''c.example'' ent_world_insecure)
     = Some (Wrap ''credentials check failed''
         (InsecurePermissions ''/opt/trustctl/credentials/api.key'' 420))"
  by code_simp

subsection \<open>C3: the renew command\<close>

text \<open>
  C3. Whenever listing the metadata root succeeds, \<open>renewCmd\<close> returns success. With no
  listed domain the world is unchanged but for one warning on standard error (no
  certificate operation). Otherwise the final world is the loop body \<open>renew_step\<close> folded
  over all listed domains in order, and the loop body turns a failure of \<open>renewDomain\<close>
  into a line on standard error and hands the world on to the next domain.
\<close>

theorem renewCmd_isolates_failures:
  assumes "ListAll w = Inr ds"
  shows "fst (renewCmd ev w) = None \<and>
         (ds = [] \<longrightarrow>
            snd (renewCmd ev w) = emit (UiWarning (Err ''No certificates found for renewal'')) w) \<and>
         (ds \<noteq> [] \<longrightarrow> snd (renewCmd ev w) = foldl (\<lambda>v d. renew_step ev d v) w ds) \<and>
         (\<forall>d v. renew_step ev d v =
            (case fst (renewDomain ev d v) of
               Some e \<Rightarrow>
                 emit (UiError (Wrap (''renewal failed for '' @ d) e)) (snd (renewDomain ev d v))
             | None \<Rightarrow> snd (renewDomain ev d v)))"
  using assms
  by (auto simp: renewCmd_def renew_loop_foldl renew_step_def split: prod.splits option.splits)

text \<open>
  Witness: the sample world lists \<open>a.example\<close> (which fails validation) before
  \<open>b.example\<close>; the command succeeds, reports the first and renews the second. The
  world without records gives success and one warning.
\<close>

theorem renewCmd_isolates_failures_witness:
  "ListAll demo_world = Inr [''a.example'', ''b.example''] \<and>
   fst (renewCmd demo_env demo_world) = None \<and>
   snd (renewCmd demo_env demo_world)
     = renew_step demo_env ''b.example'' (renew_step demo_env ''a.example'' demo_world) \<and>
   trace (snd (renewCmd demo_env demo_world))
     = [UiError (Wrap ''renewal failed for a.example''
          (Wrap ''validation failed'' (Err ''email validation not implemented yet'')))] \<and>
   Load demo_env ''b.example'' (snd (renewCmd demo_env demo_world))
     = Inr (renewed (meta_for ''b.example'' ''http'' []) 9) \<and>
   ListAll empty_world = Inr [] \<and>
   renewCmd demo_env empty_world
     = (None, emit (UiWarning (Err ''No certificates found for renewal'')) empty_world)"
proof -
  have l: "ListAll demo_world = Inr [''a.example'', ''b.example'']" by code_simp
  have e: "ListAll empty_world = Inr []" by code_simp
  from renewCmd_isolates_failures[OF l, of demo_env]
  have a: "fst (renewCmd demo_env demo_world) = None"
    and b: "snd (renewCmd demo_env demo_world)
     = renew_step demo_env ''b.example'' (renew_step demo_env ''a.example'' demo_world)"
    by simp_all
  have t: "trace (snd (renewCmd demo_env demo_world))
     = [UiError (Wrap ''renewal failed for a.example''
          (Wrap ''validation failed'' (Err ''email validation not implemented yet'')))]"
    by code_simp
  have s: "Load demo_env ''b.example'' (snd (renewCmd demo_env demo_world))
     = Inr (renewed (meta_for ''b.example'' ''http'' []) 9)" by code_simp
  from renewCmd_isolates_failures[OF e, of demo_env]
  have "fst (renewCmd demo_env empty_world) = None"
    and "snd (renewCmd demo_env empty_world)
      = emit (UiWarning (Err ''No certificates found for renewal'')) empty_world"
    by simp_all
  then have z: "renewCmd demo_env empty_world
     = (None, emit (UiWarning (Err ''No certificates found for renewal'')) empty_world)"
    by (simp add: prod_eq_iff)
  from l a b t s e z show ?thesis by blast
qed

subsection \<open>C4: DNS validation without a provider name\<close>

text \<open>
  C4 (as amended). A request with validation method \<open>dns\<close> (in any letter case), a
  domain list and no DNS provider name always fails, and it fails before any plugin is
  opened, any challenge is presented and any time is spent waiting: all it writes to
  the trace is one line on standard error. In the request command without key
  generation nothing else changes at all (the file system is untouched), and when the
  credentials check and the CA resolution pass, the error is the configuration error
  \<open>--dns-provider is required for dns validation\<close>. In the request command that
  generates the key itself, the check comes after the certificate directory, the key,
  the CSR and the account have been set up; when those steps, the credentials check
  and the CA resolution pass, it returns the same configuration error.
\<close>

theorem request_dns_without_provider:
  assumes v: "strings_ToLower (validationFlag fl) = ''dns''" and p: "dnsProviderFlag fl = []"
      and d: "domainsFlag fl \<noteq> []"
  shows "(\<exists>e. requestCmd ev fl w = (Some e, emit (UiError e) w) \<and>
            (AssertPermissions credentialsPath w = None \<and>
             isl (Resolve (serverURLFlag fl) (hmacIDFlag fl) (hmacKeyFlag fl)) = False \<longrightarrow>
               e = Err ''--dns-provider is required for dns validation'')) \<and>
         (\<exists>e x. fst (requestCmd_keygen ev fl w) = Some e \<and>
            trace (snd (requestCmd_keygen ev fl w)) = trace w @ [UiError x] \<and>
            clock (snd (requestCmd_keygen ev fl w)) = clock w) \<and>
         (\<forall>w1 w3. setup_keys ev fl w = (None, w1) \<and> setup_account ev fl w1 = (None, w3) \<and>
            AssertPermissions credentialsPath w3 = None \<and>
            isl (Resolve (serverURLFlag fl) (hmacIDFlag fl) (hmacKeyFlag fl)) = False \<longrightarrow>
            requestCmd_keygen ev fl w =
              (Some (Err ''--dns-provider is required for dns validation''),
               emit (UiError (Err ''--dns-provider is required for dns validation'')) w3))"
proof (intro conjI allI impI)
  show "\<exists>e. requestCmd ev fl w = (Some e, emit (UiError e) w) \<and>
            (AssertPermissions credentialsPath w = None \<and>
             isl (Resolve (serverURLFlag fl) (hmacIDFlag fl) (hmacKeyFlag fl)) = False \<longrightarrow>
               e = Err ''--dns-provider is required for dns validation'')"
    by (rule requestCmd_dns_no_provider[OF v p d])
next
  show "\<exists>e x. fst (requestCmd_keygen ev fl w) = Some e \<and>
            trace (snd (requestCmd_keygen ev fl w)) = trace w @ [UiError x] \<and>
            clock (snd (requestCmd_keygen ev fl w)) = clock w"
    by (rule requestCmd_keygen_dns_no_provider[OF v p d])
next
  fix w1 w3
  assume h: "setup_keys ev fl w = (None, w1) \<and> setup_account ev fl w1 = (None, w3) \<and>
            AssertPermissions credentialsPath w3 = None \<and>
            isl (Resolve (serverURLFlag fl) (hmacIDFlag fl) (hmacKeyFlag fl)) = False"
  then obtain c where r: "Resolve (serverURLFlag fl) (hmacIDFlag fl) (hmacKeyFlag fl) = Inr c"
    by (cases "Resolve (serverURLFlag fl) (hmacIDFlag fl) (hmacKeyFlag fl)") auto
  from h r d setup_challenge_dns[OF v, of w1] request_provider_missing[OF v p, of ev w3]
  show "requestCmd_keygen ev fl w =
              (Some (Err ''--dns-provider is required for dns validation''),
               emit (UiError (Err ''--dns-provider is required for dns validation'')) w3)"
    by (simp add: requestCmd_keygen_def)
qed

text \<open>
  Witness: \<open>--domains b.example --validation DNS\<close> and no provider, in the world
  without records.
\<close>

theorem request_dns_without_provider_witness:
  "strings_ToLower (validationFlag (demo_flags ''DNS'' [])) = ''dns'' \<and>
   dnsProviderFlag (demo_flags ''DNS'' []) = [] \<and>
   domainsFlag (demo_flags ''DNS'' []) \<noteq> [] \<and>
   requestCmd demo_env (demo_flags ''DNS'' []) empty_world
     = (Some (Err ''--dns-provider is required for dns validation''),
        emit (UiError (Err ''--dns-provider is required for dns validation'')) empty_world) \<and>
   fst (requestCmd_keygen demo_env (demo_flags ''DNS'' []) empty_world)
     = Some (Err ''--dns-provider is required for dns validation'') \<and>
   trace (snd (requestCmd_keygen demo_env (demo_flags ''DNS'' []) empty_world))
     = [UiError (Err ''--dns-provider is required for dns validation'')]"
proof -
  have v: "strings_ToLower (validationFlag (demo_flags ''DNS'' [])) = ''dns''" by code_simp
  have p: "dnsProviderFlag (demo_flags ''DNS'' []) = []" by code_simp
  have d: "domainsFlag (demo_flags ''DNS'' []) \<noteq> []" by code_simp
  have a: "AssertPermissions credentialsPath empty_world = None" by code_simp
  have r: "isl (Resolve (serverURLFlag (demo_flags ''DNS'' [])) (hmacIDFlag (demo_flags ''DNS'' []))
             (hmacKeyFlag (demo_flags ''DNS'' []))) = False" by code_simp
  from request_dns_without_provider[OF v p d, of demo_env empty_world] a r
  have q: "requestCmd demo_env (demo_flags ''DNS'' []) empty_world
     = (Some (Err ''--dns-provider is required for dns validation''),
        emit (UiError (Err ''--dns-provider is required for dns validation'')) empty_world)"
    by auto
  have k: "fst (requestCmd_keygen demo_env (demo_flags ''DNS'' []) empty_world)
     = Some (Err ''--dns-provider is required for dns validation'')" by code_simp
  have t: "trace (snd (requestCmd_keygen demo_env (demo_flags ''DNS'' []) empty_world))
     = [UiError (Err ''--dns-provider is required for dns validation'')]" by code_simp
  from v p d q k t show ?thesis by blast
qed

text \<open>
  Counterexample to C4 as stated: the key-generating request command fails with the
  configuration error only after it has created the certificate directory and
  written the private key, the CSR and the account file.
\<close>

theorem requestCmd_keygen_writes_before_failing:
  "fst (requestCmd_keygen demo_env (demo_flags ''dns'' []) empty_world)
     = Some (Err ''--dns-provider is required for dns validation'') \<and>
   os_ReadFile ''/opt/trustctl/certs/b.example/privkey.pem'' empty_world
     = Inl (OSErr ENOENT ''/opt/trustctl/certs/b.example/privkey.pem'') \<and>
   os_ReadFile ''/opt/trustctl/certs/b.example/privkey.pem''
       (snd (requestCmd_keygen demo_env (demo_flags ''dns'' []) empty_world)) = Inr ''PEM:key'' \<and>
   os_ReadFile ''/opt/trustctl/certs/b.example/csr.pem''
       (snd (requestCmd_keygen demo_env (demo_flags ''dns'' []) empty_world))
     = Inr ''PEM:csr:b.example'' \<and>
   os_ReadFile ''/opt/trustctl/credentials/letsencrypt-account.json''
       (snd (requestCmd_keygen demo_env (demo_flags ''dns'' []) empty_world))
     = Inr ''letsencrypt;admin@b.example''"
  by code_simp

subsection \<open>C5: selection of the validation method\<close>

text \<open>
  C5 (as amended). \<open>Validate\<close> selects among its three methods by exact, case-sensitive
  match of the method name against \<open>dns\<close>, \<open>http\<close> and \<open>email\<close>: \<open>dns\<close> without a
  provider fails with \<open>dns provider not configured\<close> and with one runs the DNS method,
  \<open>http\<close> runs the HTTP method, \<open>email\<close> always fails as not implemented, and every
  other name, among them \<open>DNS\<close> and \<open>Http\<close>, fails with the unknown-validation-type
  error and changes nothing. Letter case is folded by the request commands, which
  lower-case the \<open>--validation\<close> flag before they build the validator.
\<close>

theorem Validate_exact_match:
  "Validate ''dns'' None ds w = (Some (Err ''dns provider not configured''), w) \<and>
   Validate ''dns'' (Some p) ds w = doDNS p ds w \<and>
   Validate ''http'' prov ds w = doHTTP ds w \<and>
   Validate ''email'' prov ds w = (Some (Err ''email validation not implemented yet''), w) \<and>
   (vtype \<noteq> ''dns'' \<and> vtype \<noteq> ''http'' \<and> vtype \<noteq> ''email'' \<longrightarrow>
      Validate vtype prov ds w = (Some (Err (''unknown validation type: '' @ vtype)), w)) \<and>
   requestCmd ev (fl\<lparr>validationFlag := strings_ToLower (validationFlag fl)\<rparr>) w
     = requestCmd ev fl w \<and>
   requestCmd_keygen ev (fl\<lparr>validationFlag := strings_ToLower (validationFlag fl)\<rparr>) w
     = requestCmd_keygen ev fl w"
  by (simp add: Validate_def request_lowercases request_keygen_lowercases)

theorem Validate_exact_match_witness:
  "''Http'' \<noteq> ''dns'' \<and> ''Http'' \<noteq> ''http'' \<and> ''Http'' \<noteq> ''email'' \<and>
   Validate ''Http'' None [''b.example''] empty_world
     = (Some (Err ''unknown validation type: Http''), empty_world) \<and>
   requestCmd demo_env (demo_flags ''Http'' []) empty_world
     = requestCmd demo_env (demo_flags ''http'' []) empty_world"
proof -
  have n: "''Http'' \<noteq> ''dns'' \<and> ''Http'' \<noteq> ''http'' \<and> ''Http'' \<noteq> ''email''" by simp
  have l: "(demo_flags ''Http'' [])\<lparr>validationFlag := strings_ToLower (validationFlag (demo_flags ''Http'' []))\<rparr>
             = demo_flags ''http'' []" by code_simp
  from Validate_exact_match[where vtype = "''Http''" and prov = None and ds = "[''b.example'']"
      and w = empty_world and ev = demo_env and fl = "demo_flags ''Http'' []"] n l
  show ?thesis by simp
qed

text \<open>
  Counterexample to C5 as stated: the names \<open>DNS\<close> and \<open>dns\<close> do not select the same
  method, nor do \<open>Http\<close> and \<open>http\<close>.
\<close>

theorem Validate_is_case_sensitive:
  "fst (Validate ''DNS'' (Some demo_provider) [''b.example''] empty_world)
     = Some (Err ''unknown validation type: DNS'') \<and>
   fst (Validate ''dns'' (Some demo_provider) [''b.example''] empty_world) = None \<and>
   fst (Validate ''Http'' None [''b.example''] empty_world)
     = Some (Err ''unknown validation type: Http'') \<and>
   fst (Validate ''http'' None [''b.example''] empty_world) = None"
  by code_simp

subsection \<open>C6: CA resolution\<close>

text \<open>
  C6. \<open>Resolve\<close> with an empty server URL returns the default (Let's Encrypt) client
  whatever the HMAC arguments are; with a non-empty server URL it fails with the
  missing-credentials error when the HMAC id or the HMAC key is empty, and otherwise
  returns the enterprise client holding exactly that URL, id and key.
\<close>

theorem Resolve_contract:
  "Resolve [] hmacID hmacKey = Inr letsencryptClient \<and>
   (serverURL \<noteq> [] \<and> (hmacID = [] \<or> hmacKey = []) \<longrightarrow>
      Resolve serverURL hmacID hmacKey
        = Inl (Err ''hmac-id and hmac-key are required for enterprise CA'')) \<and>
   (serverURL \<noteq> [] \<and> hmacID \<noteq> [] \<and> hmacKey \<noteq> [] \<longrightarrow>
      Resolve serverURL hmacID hmacKey = Inr (enterpriseClient serverURL hmacID hmacKey))"
  by (simp add: Resolve_def)

theorem Resolve_contract_witness:
  "Resolve [] ''id'' ''key'' = Inr letsencryptClient \<and>
   Resolve ''https://ca.corp.example'' [] ''key''
     = Inl (Err ''hmac-id and hmac-key are required for enterprise CA'') \<and>
   Resolve ''https://ca.corp.example'' ''id'' []
     = Inl (Err ''hmac-id and hmac-key are required for enterprise CA'') \<and>
   Resolve ''https://ca.corp.example'' ''id'' ''key''
     = Inr (enterpriseClient ''https://ca.corp.example'' ''id'' ''key'')"
  using Resolve_contract[of "''id''" "''key''" "''https://ca.corp.example''"]
    Resolve_contract[of "[]" "''key''" "''https://ca.corp.example''"]
    Resolve_contract[of "''id''" "[]" "''https://ca.corp.example''"]
  by simp

subsection \<open>C7: listing the stored domains\<close>

text \<open>
  C7 (as amended). \<open>ListAll\<close> returns, in the order of the directory listing, exactly
  the names of the subdirectories of the metadata root in which a \<open>metadata.json\<close>
  exists. The file is not read: two worlds that hold the same paths, each a directory
  in both or a file in both, give the same list whatever the files contain, so a
  directory whose \<open>metadata.json\<close> does not parse is listed as well.
\<close>

theorem ListAll_by_existence:
  "(os_ReadDir certsDir w = Inr entries \<longrightarrow>
      ListAll w = Inr (map fst (filter (\<lambda>e. snd e \<and>
         lookup w (resolve w (filepath_Join [certsDir, fst e, ''metadata.json''])) \<noteq> None)
         entries))) \<and>
   (cwd w' = cwd w \<and> map fst (fs w') = map fst (fs w) \<and>
    map (\<lambda>e. snd e = Dir) (fs w') = map (\<lambda>e. snd e = Dir) (fs w) \<and>
    ListAll w = Inr ds \<longrightarrow> ListAll w' = Inr ds)"
proof (intro conjI impI)
  assume "os_ReadDir certsDir w = Inr entries"
  then show "ListAll w = Inr (map fst (filter (\<lambda>e. snd e \<and>
         lookup w (resolve w (filepath_Join [certsDir, fst e, ''metadata.json''])) \<noteq> None)
         entries))"
    by (rule ListAll_char)
next
  assume h: "cwd w' = cwd w \<and> map fst (fs w') = map fst (fs w) \<and>
    map (\<lambda>e. snd e = Dir) (fs w') = map (\<lambda>e. snd e = Dir) (fs w) \<and> ListAll w = Inr ds"
  then have "same_shape w w'" by (simp add: same_shape_def)
  from ListAll_shape[OF this] h show "ListAll w' = Inr ds" by auto
qed

theorem ListAll_by_existence_witness:
  "os_ReadDir certsDir good_world = Inr [(''b.example'', True)] \<and>
   ListAll good_world = Inr [''b.example''] \<and>
   cwd bad_world = cwd good_world \<and> map fst (fs bad_world) = map fst (fs good_world) \<and>
   map (\<lambda>e. snd e = Dir) (fs bad_world) = map (\<lambda>e. snd e = Dir) (fs good_world) \<and>
   ListAll bad_world = Inr [''b.example'']"
proof -
  have r: "os_ReadDir certsDir good_world = Inr [(''b.example'', True)]" by code_simp
  have l: "ListAll good_world = Inr [''b.example'']" by code_simp
  have c: "cwd bad_world = cwd good_world" by code_simp
  have k: "map fst (fs bad_world) = map fst (fs good_world)" by code_simp
  have s: "map (\<lambda>e. snd e = Dir) (fs bad_world) = map (\<lambda>e. snd e = Dir) (fs good_world)"
    by code_simp
  from ListAll_by_existence[of good_world "[(''b.example'', True)]" bad_world "[''b.example'']"]
    r l c k s
  have "ListAll bad_world = Inr [''b.example'']" by blast
  with r l c k s show ?thesis by blast
qed

text \<open>
  Counterexample to C7 as stated: the directory \<open>b.example\<close> holds a \<open>metadata.json\<close>
  that does not parse, and \<open>ListAll\<close> returns it.
\<close>

theorem ListAll_lists_malformed_record:
  "os_ReadFile (filepath_Join [certsDir, ''b.example'', ''metadata.json'']) bad_world
     = Inr ''not json'' \<and>
   json_Unmarshal demo_env ''not json'' = None \<and>
   Load demo_env ''b.example'' bad_world = Inl JSONErr \<and>
   ListAll bad_world = Inr [''b.example'']"
  by code_simp

subsection \<open>C8: storing and loading a record\<close>




subsection \<open>C9: running the update path twice\<close>

text \<open>
  C9 (as amended). Let the certificate path and the key path be plain words: not empty,
  without white space (tab, line feed, form feed, carriage return, space) and without a
  dollar sign. For nginx and for apache alike:

  \<^item> when the loop body has taken the update path for a file \<open>f\<close> with content \<open>s\<close> and
    returned without error, \<open>f\<close> holds the updated text;

  \<^item> in every world \<open>v\<close> where \<open>f\<close> holds that text, the loop body, run again with the same
    paths, returns without error and leaves \<open>v\<close> exactly as it is (no backup, no
    temporary file, no rename), provided the updated text still has its port-443
    marker or has lost its port-80 vhost of the domain, that is, unless the second run
    takes the append path; the updated text is a fixed point of the update, so the
    content-equality check holds;

  \<^item> a call in which the loop body leaves every collected file alone changes nothing.
\<close>

theorem install_update_path_idempotent:
  assumes "plain_word certPath" and "plain_word keyPath"
  shows
    "(os_ReadFile f w = Inr s \<and>
      strings_Contains s ''listen 80'' \<and> strings_Contains s domain \<and>
      strings_Contains s ''listen 443'' \<and>
      installNginxFile domain certPath keyPath f w = (None, w1) \<longrightarrow>
        os_ReadFile f w1 = Inr (updateNginxSSL s certPath keyPath domain)) \<and>
     (os_ReadFile f v = Inr (updateNginxSSL s certPath keyPath domain) \<and>
      (strings_Contains (updateNginxSSL s certPath keyPath domain) ''listen 443'' \<or>
       \<not> (strings_Contains (updateNginxSSL s certPath keyPath domain) ''listen 80'' \<and>
          strings_Contains (updateNginxSSL s certPath keyPath domain) domain)) \<longrightarrow>
        installNginxFile domain certPath keyPath f v = (None, v)) \<and>
     ((\<forall>g \<in> set (collectFiles nginxSitesDirs u).
          installNginxFile domain certPath keyPath g u = (None, u)) \<longrightarrow>
        installNginxForDomain domain certPath keyPath u = (None, u)) \<and>
     (os_ReadFile f w = Inr s \<and>
      strings_Contains s ''<VirtualHost'' \<and> strings_Contains s '':80'' \<and>
      (strings_Contains s (''ServerName '' @ domain) \<or>
       strings_Contains s (''ServerAlias '' @ domain)) \<and>
      strings_Contains s '':443'' \<and>
      installApacheFile domain certPath keyPath f w = (None, w2) \<longrightarrow>
        os_ReadFile f w2 = Inr (updateApacheSSL s certPath keyPath domain)) \<and>
     (os_ReadFile f v = Inr (updateApacheSSL s certPath keyPath domain) \<and>
      (strings_Contains (updateApacheSSL s certPath keyPath domain) '':443'' \<or>
       \<not> ((strings_Contains (updateApacheSSL s certPath keyPath domain) ''<VirtualHost'' \<and>
           strings_Contains (updateApacheSSL s certPath keyPath domain) '':80'') \<and>
          (strings_Contains (updateApacheSSL s certPath keyPath domain) (''ServerName '' @ domain) \<or>
           strings_Contains (updateApacheSSL s certPath keyPath domain) (''ServerAlias '' @ domain)))) \<longrightarrow>
        installApacheFile domain certPath keyPath f v = (None, v)) \<and>
     ((\<forall>g \<in> set (collectFiles apacheSitesDirs u).
          installApacheFile domain certPath keyPath g u = (None, u)) \<longrightarrow>
        installApacheForDomain domain certPath keyPath u = (None, u)) \<and>
     updateNginxSSL (updateNginxSSL s certPath keyPath domain) certPath keyPath domain = updateNginxSSL s certPath keyPath domain \<and>
     updateApacheSSL (updateApacheSSL s certPath keyPath domain) certPath keyPath domain = updateApacheSSL s certPath keyPath domain"
proof -
  note pc = assms(1) and pk = assms(2)
  have n1: "os_ReadFile f w = Inr s \<and>
      strings_Contains s ''listen 80'' \<and> strings_Contains s domain \<and>
      strings_Contains s ''listen 443'' \<and>
      installNginxFile domain certPath keyPath f w = (None, w1) \<longrightarrow>
        os_ReadFile f w1 = Inr (updateNginxSSL s certPath keyPath domain)"
    using installNginxFile_updates[of f w s domain certPath keyPath w1] by blast
  have n2: "os_ReadFile f v = Inr (updateNginxSSL s certPath keyPath domain) \<and>
      (strings_Contains (updateNginxSSL s certPath keyPath domain) ''listen 443'' \<or>
       \<not> (strings_Contains (updateNginxSSL s certPath keyPath domain) ''listen 80'' \<and>
          strings_Contains (updateNginxSSL s certPath keyPath domain) domain)) \<longrightarrow>
        installNginxFile domain certPath keyPath f v = (None, v)"
    using installNginxFile_settled[OF pc pk, of f v s domain] by blast
  have n3: "(\<forall>g \<in> set (collectFiles nginxSitesDirs u).
          installNginxFile domain certPath keyPath g u = (None, u)) \<longrightarrow>
        installNginxForDomain domain certPath keyPath u = (None, u)"
    unfolding installNginxForDomain_def by (intro impI install_loop_idle)
  have a1: "os_ReadFile f w = Inr s \<and>
      strings_Contains s ''<VirtualHost'' \<and> strings_Contains s '':80'' \<and>
      (strings_Contains s (''ServerName '' @ domain) \<or>
       strings_Contains s (''ServerAlias '' @ domain)) \<and>
      strings_Contains s '':443'' \<and>
      installApacheFile domain certPath keyPath f w = (None, w2) \<longrightarrow>
        os_ReadFile f w2 = Inr (updateApacheSSL s certPath keyPath domain)"
    using installApacheFile_updates[of f w s domain certPath keyPath w2] by blast
  have a2: "os_ReadFile f v = Inr (updateApacheSSL s certPath keyPath domain) \<and>
      (strings_Contains (updateApacheSSL s certPath keyPath domain) '':443'' \<or>
       \<not> ((strings_Contains (updateApacheSSL s certPath keyPath domain) ''<VirtualHost'' \<and>
           strings_Contains (updateApacheSSL s certPath keyPath domain) '':80'') \<and>
          (strings_Contains (updateApacheSSL s certPath keyPath domain) (''ServerName '' @ domain) \<or>
           strings_Contains (updateApacheSSL s certPath keyPath domain) (''ServerAlias '' @ domain)))) \<longrightarrow>
        installApacheFile domain certPath keyPath f v = (None, v)"
    using installApacheFile_settled[OF pc pk, of f v s domain] by blast
  have a3: "(\<forall>g \<in> set (collectFiles apacheSitesDirs u).
          installApacheFile domain certPath keyPath g u = (None, u)) \<longrightarrow>
        installApacheForDomain domain certPath keyPath u = (None, u)"
    unfolding installApacheForDomain_def by (intro impI install_loop_idle)
  have i1: "updateNginxSSL (updateNginxSSL s certPath keyPath domain) certPath keyPath domain = updateNginxSSL s certPath keyPath domain"
    by (rule updateNginxSSL_twice[OF pc pk])
  have i2: "updateApacheSSL (updateApacheSSL s certPath keyPath domain) certPath keyPath domain = updateApacheSSL s certPath keyPath domain"
    by (rule updateApacheSSL_twice[OF pc pk])
  from n1 n2 n3 a1 a2 a3 i1 i2 show ?thesis by (intro conjI)
qed

text \<open>
  Witness: on the sample host the first run rewrites both site files with
  \<open>/etc/ssl/c.pem\<close> and \<open>/etc/ssl/k.pem\<close>; the second run of the loop body on either file
  changes nothing, and on the host whose only files name the new paths already the
  whole call changes nothing.
\<close>

theorem install_update_path_idempotent_witness:
  "plain_word ''/etc/ssl/c.pem'' \<and> plain_word ''/etc/ssl/k.pem'' \<and>
   os_ReadFile nginx_site web_world = Inr nginx_conf \<and>
   strings_Contains nginx_conf ''listen 80'' \<and> strings_Contains nginx_conf ''b.example'' \<and>
   strings_Contains nginx_conf ''listen 443'' \<and>
   installNginxFile ''b.example'' ''/etc/ssl/c.pem'' ''/etc/ssl/k.pem'' nginx_site web_world
     = (None, nginx_once) \<and>
   os_ReadFile nginx_site nginx_once = Inr nginx_conf_new \<and>
   strings_Contains nginx_conf_new ''listen 443'' \<and>
   installNginxFile ''b.example'' ''/etc/ssl/c.pem'' ''/etc/ssl/k.pem'' nginx_site nginx_once
     = (None, nginx_once) \<and>
   collectFiles nginxSitesDirs settled_world = [nginx_site] \<and>
   installNginxFile ''b.example'' ''/etc/ssl/c.pem'' ''/etc/ssl/k.pem'' nginx_site settled_world
     = (None, settled_world) \<and>
   installNginxForDomain ''b.example'' ''/etc/ssl/c.pem'' ''/etc/ssl/k.pem'' settled_world
     = (None, settled_world) \<and>
   os_ReadFile apache_site web_world = Inr apache_conf \<and>
   strings_Contains apache_conf ''<VirtualHost'' \<and> strings_Contains apache_conf '':80'' \<and>
   strings_Contains apache_conf (''ServerName '' @ ''b.example'') \<and>
   strings_Contains apache_conf '':443'' \<and>
   fst (installApacheFile ''b.example'' ''/etc/ssl/c.pem'' ''/etc/ssl/k.pem'' apache_site web_world)
     = None \<and>
   os_ReadFile apache_site
       (snd (installApacheFile ''b.example'' ''/etc/ssl/c.pem'' ''/etc/ssl/k.pem'' apache_site web_world))
     = Inr apache_conf_new \<and>
   strings_Contains apache_conf_new '':443'' \<and>
   installApacheFile ''b.example'' ''/etc/ssl/c.pem'' ''/etc/ssl/k.pem'' apache_site
       (snd (installApacheFile ''b.example'' ''/etc/ssl/c.pem'' ''/etc/ssl/k.pem'' apache_site web_world))
     = (None,
        snd (installApacheFile ''b.example'' ''/etc/ssl/c.pem'' ''/etc/ssl/k.pem'' apache_site web_world)) \<and>
   collectFiles apacheSitesDirs settled_world = [apache_site] \<and>
   installApacheFile ''b.example'' ''/etc/ssl/c.pem'' ''/etc/ssl/k.pem'' apache_site settled_world
     = (None, settled_world) \<and>
   installApacheForDomain ''b.example'' ''/etc/ssl/c.pem'' ''/etc/ssl/k.pem'' settled_world
     = (None, settled_world)"
proof -
  let ?c = "''/etc/ssl/c.pem''" and ?k = "''/etc/ssl/k.pem''" and ?d = "''b.example''"
  let ?a = "installApacheFile ?d ?c ?k apache_site web_world"
  have pc: "plain_word ?c" by code_simp
  have pk: "plain_word ?k" by code_simp
  have rn: "os_ReadFile nginx_site web_world = Inr nginx_conf" by code_simp
  have gn: "strings_Contains nginx_conf ''listen 80''" "strings_Contains nginx_conf ?d"
    "strings_Contains nginx_conf ''listen 443''" by code_simp+
  have sn: "installNginxFile ?d ?c ?k nginx_site web_world = (None, nginx_once)" by code_simp
  have un: "updateNginxSSL nginx_conf ?c ?k ?d = nginx_conf_new" by code_simp
  have hn: "strings_Contains nginx_conf_new ''listen 443''" by code_simp
  have cn: "collectFiles nginxSitesDirs settled_world = [nginx_site]" by code_simp
  have en: "installNginxFile ?d ?c ?k nginx_site settled_world = (None, settled_world)"
    by code_simp
  from cn en have bn: "\<forall>g \<in> set (collectFiles nginxSitesDirs settled_world).
      installNginxFile ?d ?c ?k g settled_world = (None, settled_world)" by simp
  have ra: "os_ReadFile apache_site web_world = Inr apache_conf" by code_simp
  have ga: "strings_Contains apache_conf ''<VirtualHost''" "strings_Contains apache_conf '':80''"
    "strings_Contains apache_conf (''ServerName '' @ ?d)" "strings_Contains apache_conf '':443''"
    by code_simp+
  have fa: "fst ?a = None" by code_simp
  then have sa: "?a = (None, snd ?a)" by (simp add: prod_eq_iff)
  have ua: "updateApacheSSL apache_conf ?c ?k ?d = apache_conf_new" by code_simp
  have ha: "strings_Contains apache_conf_new '':443''" by code_simp
  have ca: "collectFiles apacheSitesDirs settled_world = [apache_site]" by code_simp
  have ea: "installApacheFile ?d ?c ?k apache_site settled_world = (None, settled_world)"
    by code_simp
  from ca ea have ba: "\<forall>g \<in> set (collectFiles apacheSitesDirs settled_world).
      installApacheFile ?d ?c ?k g settled_world = (None, settled_world)" by simp
  note N = install_update_path_idempotent[OF pc pk, where f = nginx_site and w = web_world
      and s = nginx_conf and domain = ?d and ?w1.0 = nginx_once and v = nginx_once
      and u = settled_world, unfolded un]
  note A = install_update_path_idempotent[OF pc pk, where f = apache_site and w = web_world
      and s = apache_conf and domain = ?d and ?w2.0 = "snd ?a" and v = "snd ?a"
      and u = settled_world, unfolded ua]
  from N rn gn sn have n1: "os_ReadFile nginx_site nginx_once = Inr nginx_conf_new" by blast
  from N n1 hn have n2: "installNginxFile ?d ?c ?k nginx_site nginx_once = (None, nginx_once)"
    by blast
  from N bn have n3: "installNginxForDomain ?d ?c ?k settled_world = (None, settled_world)"
    by blast
  from A ra ga sa have a1: "os_ReadFile apache_site (snd ?a) = Inr apache_conf_new" by blast
  from A a1 ha have a2: "installApacheFile ?d ?c ?k apache_site (snd ?a) = (None, snd ?a)"
    by blast
  from A ba have a3: "installApacheForDomain ?d ?c ?k settled_world = (None, settled_world)"
    by blast
  from pc pk rn gn sn n1 hn n2 cn en n3 ra ga fa a1 ha a2 ca ea a3 show ?thesis by (intro conjI)
qed

text \<open>
  Counterexample to C9 as stated: the files are collected anew by every call, and the
  backup \<open>b.conf.bak.7\<close> that the first call left in the same directory still holds the
  old directive lines. The second call of \<open>installNginxForDomain\<close>, with the same plain
  paths, leaves \<open>b.conf\<close> alone but copies the backup to \<open>b.conf.bak.7.bak.7\<close> and rewrites
  it through a temporary file and a rename. And with the certificate path
  \<open>/etc/ssl/my certs/c.pem\<close> the apache pattern matches the rewritten line only up to the
  space, so that the second call rewrites the site file itself once more.
\<close>

theorem install_second_call_rewrites:
  "installNginxForDomain ''b.example'' ''/etc/ssl/c.pem'' ''/etc/ssl/k.pem'' web_world
     = (None, nginx_once) \<and>
   installNginxForDomain ''b.example'' ''/etc/ssl/c.pem'' ''/etc/ssl/k.pem'' nginx_once
     = (None, nginx_twice) \<and>
   os_ReadFile (nginx_site @ ''.bak.7'') nginx_once = Inr nginx_conf \<and>
   os_ReadFile (nginx_site @ ''.bak.7'') nginx_twice = Inr nginx_conf_new \<and>
   os_ReadFile (nginx_site @ ''.bak.7.bak.7'') nginx_once
     = Inl (OSErr ENOENT (nginx_site @ ''.bak.7.bak.7'')) \<and>
   os_ReadFile (nginx_site @ ''.bak.7.bak.7'') nginx_twice = Inr nginx_conf \<and>
   fst (installApacheForDomain ''b.example'' ''/etc/ssl/my certs/c.pem'' ''/etc/ssl/k.pem'' web_world)
     = None \<and>
   os_ReadFile apache_site
       (snd (installApacheForDomain ''b.example'' ''/etc/ssl/my certs/c.pem'' ''/etc/ssl/k.pem''
               web_world))
     = Inr (''<VirtualHost *:80>\<newline>  ServerName b.example\<newline></VirtualHost>\<newline>'' @
            ''<VirtualHost *:443>\<newline>  ServerName b.example\<newline>'' @
            ''    SSLCertificateFile /etc/ssl/my certs/c.pem\<newline>'' @
            ''    SSLCertificateKeyFile /etc/ssl/k.pem\<newline></VirtualHost>\<newline>'') \<and>
   fst (installApacheForDomain ''b.example'' ''/etc/ssl/my certs/c.pem'' ''/etc/ssl/k.pem''
          (snd (installApacheForDomain ''b.example'' ''/etc/ssl/my certs/c.pem'' ''/etc/ssl/k.pem''
                  web_world)))
     = None \<and>
   os_ReadFile apache_site
       (snd (installApacheForDomain ''b.example'' ''/etc/ssl/my certs/c.pem'' ''/etc/ssl/k.pem''
          (snd (installApacheForDomain ''b.example'' ''/etc/ssl/my certs/c.pem'' ''/etc/ssl/k.pem''
                  web_world))))
     = Inr (''<VirtualHost *:80>\<newline>  ServerName b.example\<newline></VirtualHost>\<newline>'' @
            ''<VirtualHost *:443>\<newline>  ServerName b.example\<newline>'' @
            ''    SSLCertificateFile /etc/ssl/my certs/c.pem certs/c.pem\<newline>'' @
            ''    SSLCertificateKeyFile /etc/ssl/k.pem\<newline></VirtualHost>\<newline>'')"
  by code_simp

subsection \<open>C10: where HTTP validation writes its tokens\<close>




end
